theory Spec2Isabelle
  imports Main "HOL-Library.Sublist"
begin

section \<open>Text\<close>

text \<open>
  A Python \<open>str\<close> is modelled as a \<open>string\<close>, one \<open>char\<close> per character of ASCII text.
  The only characters outside ASCII that the modelled code writes are the three severity
  emoji of the report renderer, which appear as their UTF-8 bytes.
\<close>

definition newline :: char where
  "newline = CHR 0x0A"





text \<open>
  \<open>str.isspace\<close> on one character, for ASCII text: tab, line feed, vertical tab, form feed,
  carriage return, the four separators 0x1C..0x1F and the space.
\<close>

definition isspace :: "char \<Rightarrow> bool" where
  "isspace c = (let n = (of_char c :: nat) in (9 \<le> n \<and> n \<le> 13) \<or> (28 \<le> n \<and> n \<le> 32))"

text \<open>\<open>s.strip()\<close>: whitespace removed at both ends.\<close>

definition strip :: "string \<Rightarrow> string" where
  "strip s = rev (dropWhile isspace (rev (dropWhile isspace s)))"

text \<open>\<open>not s.strip()\<close>\<close>

definition blank :: "string \<Rightarrow> bool" where
  "blank s = (strip s = [])"

text \<open>\<open>sep.join(parts)\<close>\<close>

fun join :: "string \<Rightarrow> string list \<Rightarrow> string" where
  "join sep [] = []"
| "join sep [x] = x"
| "join sep (x # y # ys) = x @ sep @ join sep (y # ys)"

text \<open>\<open>s.split("/")[-1]\<close>: the text after the last slash, the whole text when there is none.\<close>

fun last_component :: "string \<Rightarrow> string \<Rightarrow> string" where
  "last_component cur [] = cur"
| "last_component cur (c # cs) =
     (if c = CHR ''/'' then last_component [] cs else last_component (cur @ [c]) cs)"

definition basename :: "string \<Rightarrow> string" where
  "basename file_path = last_component [] file_path"

section \<open>Glob matching (fnmatch)\<close>

text \<open>
  \<open>fnmatch.fnmatch(name, pat)\<close> of the standard library on a POSIX host, where
  \<open>os.path.normcase\<close> is the identity. \<open>translate\<close> reads the pattern into one item per
  pattern element, as \<open>fnmatch.translate\<close> builds its regular expression: a star (runs of
  stars compressed to one), any character, a character set with its ranges, the set that
  never matches, or a literal character.
\<close>

datatype glob_item =
  STAR
  | ANY
  | NEVER
  | LIT char
  | SET bool string "(char \<times> char) list"

text \<open>
  The scan for range hyphens inside \<open>[...]\<close>: \<open>skip\<close> characters are passed over before a
  hyphen may split (the first character of the set, and the two characters after a
  splitting hyphen).
\<close>

fun chunk_scan :: "nat \<Rightarrow> string \<Rightarrow> string \<Rightarrow> string list" where
  "chunk_scan skip cur [] = [cur]"
| "chunk_scan skip cur (c # cs) =
     (if skip = 0 \<and> c = CHR ''-'' then cur # chunk_scan 2 [] cs
      else chunk_scan (skip - 1) (cur @ [c]) cs)"

text \<open>An empty last chunk means the set ends in a hyphen, which then belongs to the chunk before.\<close>

definition close_chunks :: "string list \<Rightarrow> string list" where
  "close_chunks chunks =
     (if chunks \<noteq> [] \<and> last chunks = [] \<and> butlast chunks \<noteq> []
      then butlast (butlast chunks) @ [last (butlast chunks) @ ''-'']
      else chunks)"

text \<open>
  Removal of empty ranges, from the last pair of chunks to the first: a range whose lower
  end is above its upper end loses both ends and the two chunks are merged.
\<close>

fun remove_empty_ranges :: "string list \<Rightarrow> string list" where
  "remove_empty_ranges [] = []"
| "remove_empty_ranges [a] = [a]"
| "remove_empty_ranges (a # b # bs) =
     (case remove_empty_ranges (b # bs) of
        [] \<Rightarrow> [a]
      | b' # more \<Rightarrow>
          (if a \<noteq> [] \<and> b' \<noteq> [] \<and> (of_char (last a) :: nat) > of_char (hd b')
           then (butlast a @ tl b') # more
           else a # b' # more))"

definition set_chunks :: "string \<Rightarrow> string list" where
  "set_chunks stuff =
     (if CHR ''-'' \<notin> set stuff then [stuff]
      else remove_empty_ranges
             (close_chunks (chunk_scan (if take 1 stuff = ''!'' then 2 else 1) [] stuff)))"

fun chunk_ranges :: "string list \<Rightarrow> (char \<times> char) list" where
  "chunk_ranges (a # b # bs) =
     (if a \<noteq> [] \<and> b \<noteq> [] then [(last a, hd b)] else []) @ chunk_ranges (b # bs)"
| "chunk_ranges _ = []"

definition set_item :: "string \<Rightarrow> glob_item" where
  "set_item stuff =
     (let chunks = set_chunks stuff; joined = join ''-'' chunks in
      if joined = [] then NEVER
      else if joined = ''!'' then ANY
      else (case chunks of
              [] \<Rightarrow> NEVER
            | first # others \<Rightarrow>
                (if take 1 first = ''!''
                 then SET True (concat (tl first # others)) (chunk_ranges (tl first # others))
                 else SET False (concat chunks) (chunk_ranges chunks))))"

text \<open>
  The closing bracket of a set that opens just before \<open>rest\<close>: an exclamation mark and then
  a closing bracket directly after the opening one are part of the set. The result is the
  number of characters of the set, or nothing when the set is never closed.
\<close>

fun find_char :: "char \<Rightarrow> string \<Rightarrow> nat option" where
  "find_char x [] = None"
| "find_char x (c # cs) =
     (if c = x then Some 0 else map_option Suc (find_char x cs))"

definition set_length :: "string \<Rightarrow> nat option" where
  "set_length rest =
     (let j1 = (if take 1 rest = ''!'' then 1 else 0);
          j2 = (if take 1 (drop j1 rest) = '']'' then j1 + 1 else j1)
      in map_option (\<lambda>k. j2 + k) (find_char (CHR '']'') (drop j2 rest)))"

function translate_from :: "glob_item list \<Rightarrow> string \<Rightarrow> glob_item list" where
  "translate_from res [] = res"
| "translate_from res (c # rest) =
     (if c = CHR ''*'' then
        translate_from (if res = [] \<or> last res \<noteq> STAR then res @ [STAR] else res) rest
      else if c = CHR ''?'' then translate_from (res @ [ANY]) rest
      else if c = CHR ''['' then
        (case set_length rest of
           None \<Rightarrow> translate_from (res @ [LIT (CHR ''['')]) rest
         | Some j \<Rightarrow> translate_from (res @ [set_item (take j rest)]) (drop (j + 1) rest))
      else translate_from (res @ [LIT c]) rest)"
  by pat_completeness auto
termination
  by (relation "measure (\<lambda>(res, pat). length pat)") auto

definition translate :: "string \<Rightarrow> glob_item list" where
  "translate pat = translate_from [] pat"

fun item_matches :: "glob_item \<Rightarrow> char \<Rightarrow> bool" where
  "item_matches STAR c = True"
| "item_matches ANY c = True"
| "item_matches NEVER c = False"
| "item_matches (LIT x) c = (c = x)"
| "item_matches (SET negated singles ranges) c =
     ((c \<in> set singles \<or>
       (\<exists>(lo, hi) \<in> set ranges. (of_char lo :: nat) \<le> of_char c \<and> (of_char c :: nat) \<le> of_char hi))
      \<noteq> negated)"

text \<open>The whole name must match: a star stands for any run of characters, anything else for one.\<close>

fun glob_match :: "glob_item list \<Rightarrow> string \<Rightarrow> bool" where
  "glob_match [] s = (s = [])"
| "glob_match (STAR # items) [] = glob_match items []"
| "glob_match (STAR # items) (c # cs) = (glob_match items (c # cs) \<or> glob_match (STAR # items) cs)"
| "glob_match (item # items) [] = False"
| "glob_match (item # items) (c # cs) = (item_matches item c \<and> glob_match items cs)"

definition fnmatch :: "string \<Rightarrow> string \<Rightarrow> bool" where
  "fnmatch name pat = glob_match (translate pat) name"

section \<open>Ignore filter (app/utils/codeguardignore.py)\<close>

definition DEFAULT_IGNORE_PATTERNS :: "string list" where
  "DEFAULT_IGNORE_PATTERNS =
     [''*.lock'', ''*.min.js'', ''*.min.css'', ''package-lock.json'', ''yarn.lock'',
      ''pnpm-lock.yaml'', ''*.generated.*'', ''*.pb.go'', ''*.pb.py'']"

fun should_ignore_file :: "string \<Rightarrow> string list \<Rightarrow> bool" where
  "should_ignore_file file_path [] = False"
| "should_ignore_file file_path (pattern # patterns) =
     (if fnmatch file_path pattern then True
      else if fnmatch (basename file_path) pattern then True
      else if CHR ''/'' \<in> set pattern \<and> fnmatch file_path pattern then True
      else should_ignore_file file_path patterns)"


text \<open>
  \<open>str.splitlines()\<close> for ASCII text: a line ends at a line feed, a carriage return (with
  the line feed that follows it, if any), a vertical tab, a form feed or one of the
  separators 0x1C..0x1E; there is no empty last line.
\<close>

definition linebreak :: "char \<Rightarrow> bool" where
  "linebreak c = (let n = (of_char c :: nat) in (10 \<le> n \<and> n \<le> 13) \<or> (28 \<le> n \<and> n \<le> 30))"

fun splitlines_from :: "string \<Rightarrow> string \<Rightarrow> string list" where
  "splitlines_from cur [] = (if cur = [] then [] else [cur])"
| "splitlines_from cur [c] = (if linebreak c then [cur] else [cur @ [c]])"
| "splitlines_from cur (c # d # cs) =
     (if c = CHR 0x0D \<and> d = CHR 0x0A then cur # splitlines_from [] cs
      else if linebreak c then cur # splitlines_from [] (d # cs)
      else splitlines_from (cur @ [c]) (d # cs))"

definition splitlines :: "string \<Rightarrow> string list" where
  "splitlines content = splitlines_from [] content"

fun parse_ignore_lines :: "string list \<Rightarrow> string list \<Rightarrow> string list" where
  "parse_ignore_lines patterns [] = patterns"
| "parse_ignore_lines patterns (line # lines) =
     (let line = strip line in
      if line = [] \<or> prefix ''#'' line then parse_ignore_lines patterns lines
      else parse_ignore_lines (patterns @ [line]) lines)"

definition parse_ignore_file :: "string \<Rightarrow> string list" where
  "parse_ignore_file content = parse_ignore_lines [] (splitlines content)"

section \<open>Diff segmenter\<close>

text \<open>
  \<open>re.split(r"(?=^diff --git )", diff, flags=re.MULTILINE)\<close>: the text is cut, without
  losing a character, in front of every line that begins with \<open>diff --git \<close>. The flag says
  whether the scan stands at the start of a line. A marker at the very start of the text
  leaves an empty first section, as \<open>re.split\<close> does.
\<close>

fun split_sections :: "bool \<Rightarrow> string \<Rightarrow> string \<Rightarrow> string list" where
  "split_sections bol cur [] = [cur]"
| "split_sections bol cur (c # cs) =
     (if bol \<and> prefix ''diff --git '' (c # cs) then cur # split_sections False [c] cs
      else split_sections (c = newline) (cur @ [c]) cs)"

definition file_sections :: "string \<Rightarrow> string list" where
  "file_sections diff = split_sections True [] diff"

text \<open>
  The group \<open>(.+?)\<close> followed by \<open> b/\<close>: the shortest non-empty run of characters other than
  a line feed after which \<open> b/\<close> stands.
\<close>

fun lazy_path :: "string \<Rightarrow> string \<Rightarrow> string option" where
  "lazy_path acc [] = None"
| "lazy_path acc (c # cs) =
     (if acc \<noteq> [] \<and> prefix '' b/'' (c # cs) then Some acc
      else if c = newline then None
      else lazy_path (acc @ [c]) cs)"

text \<open>\<open>re.match(r"^diff --git a/(.+?) b/", section)\<close>, giving \<open>match.group(1)\<close>.\<close>

definition match_header :: "string \<Rightarrow> string option" where
  "match_header section =
     (if prefix ''diff --git a/'' section then lazy_path [] (drop 13 section) else None)"

text \<open>
  \<open>extract_files_from_diff\<close> (app/worker/processor.py): \<open>re.finditer\<close> with the same
  pattern under \<open>re.MULTILINE\<close>. A match lies inside one line and begins at its start, so
  the matches are found by trying every line start in turn.
\<close>

fun extract_from :: "bool \<Rightarrow> string list \<Rightarrow> string \<Rightarrow> string list" where
  "extract_from bol files [] = files"
| "extract_from bol files (c # cs) =
     (case (if bol then match_header (c # cs) else None) of
        Some path \<Rightarrow> extract_from (c = newline) (files @ [path]) cs
      | None \<Rightarrow> extract_from (c = newline) files cs)"

definition extract_files_from_diff :: "string \<Rightarrow> string list" where
  "extract_files_from_diff diff = extract_from True [] diff"

text \<open>
  The loop of \<open>filter_diff\<close> over the sections, carrying \<open>kept_sections\<close>, \<open>kept_files\<close> and
  \<open>ignored_files\<close>.
\<close>

fun filter_loop ::
  "string list \<Rightarrow> string list \<times> string list \<times> string list \<Rightarrow> string list
   \<Rightarrow> string list \<times> string list \<times> string list" where
  "filter_loop all_patterns acc [] = acc"
| "filter_loop all_patterns (kept_sections, kept_files, ignored_files) (section # sections) =
     (if blank section then
        filter_loop all_patterns (kept_sections, kept_files, ignored_files) sections
      else
        (case match_header section of
           None \<Rightarrow>
             filter_loop all_patterns (kept_sections @ [section], kept_files, ignored_files) sections
         | Some file_path \<Rightarrow>
             (if should_ignore_file file_path all_patterns then
                filter_loop all_patterns
                  (kept_sections, kept_files, ignored_files @ [file_path]) sections
              else
                filter_loop all_patterns
                  (kept_sections @ [section], kept_files @ [file_path], ignored_files) sections)))"

definition filter_diff :: "string \<Rightarrow> string list \<Rightarrow> string \<times> string list \<times> string list" where
  "filter_diff diff patterns =
     (let all_patterns = DEFAULT_IGNORE_PATTERNS @ patterns;
          file_sections = file_sections diff
      in case filter_loop all_patterns ([], [], []) file_sections of
           (kept_sections, kept_files, ignored_files) \<Rightarrow>
             (concat kept_sections, kept_files, ignored_files))"

section \<open>Findings (app/agents/schemas.py, app/models/finding.py)\<close>

datatype py_error =
  KeyError string
  | ValueError string
  | ValidationError string
  | JSONDecodeError string
  | OtherError string

datatype AgentType = LOGIC | SECURITY | QUALITY

datatype Severity = CRITICAL | HIGH | MEDIUM | LOW | INFO

record AgentFinding =
  severity :: string
  confidence :: string
  file_path :: string
  line_number :: "int option"
  title :: string
  description :: string
  suggestion :: "string option"

text \<open>\<open>FindingCreate\<close>: the fields of \<open>FindingBase\<close> and the review it belongs to.\<close>

record FindingBase =
  f_agent_type :: AgentType
  f_severity :: Severity
  f_file_path :: string
  f_line_number :: "int option"
  f_title :: string
  f_description :: string
  f_suggestion :: "string option"
  f_confidence :: string
  f_is_false_positive :: bool
  f_false_positive_reason :: "string option"

record FindingCreate = FindingBase +
  f_review_id :: string

section \<open>Report renderer (app/agents/formatter.py)\<close>

text \<open>\<open>str(n)\<close> for an integer: decimal digits, with a minus sign below zero.\<close>

function str_nat :: "nat \<Rightarrow> string" where
  "str_nat n = (if n < 10 then [char_of (48 + n)] else str_nat (n div 10) @ [char_of (48 + n mod 10)])"
  by pat_completeness auto
termination
  by (relation "measure (\<lambda>n. n)") auto

declare str_nat.simps [simp del]

definition str_int :: "int \<Rightarrow> string" where
  "str_int i = (if i < 0 then ''-'' @ str_nat (nat (- i)) else str_nat (nat i))"

text \<open>The emoji U+1F534, U+1F7E1 and U+1F535 in UTF-8.\<close>

definition red_circle :: string where
  "red_circle = [CHR 0xF0, CHR 0x9F, CHR 0x94, CHR 0xB4]"

definition yellow_circle :: string where
  "yellow_circle = [CHR 0xF0, CHR 0x9F, CHR 0x9F, CHR 0xA1]"

definition blue_circle :: string where
  "blue_circle = [CHR 0xF0, CHR 0x9F, CHR 0x94, CHR 0xB5]"

definition SEVERITY_EMOJI :: "string \<rightharpoonup> string" where
  "SEVERITY_EMOJI =
     [''critical'' \<mapsto> red_circle, ''warning'' \<mapsto> yellow_circle, ''info'' \<mapsto> blue_circle]"

definition SEVERITY_ORDER :: "string list" where
  "SEVERITY_ORDER = [''critical'', ''warning'', ''info'']"

definition SEVERITY_LABEL :: "string \<rightharpoonup> string" where
  "SEVERITY_LABEL = [''critical'' \<mapsto> ''Critical'', ''warning'' \<mapsto> ''Warning'', ''info'' \<mapsto> ''Info'']"

text \<open>\<open>d.get(key, 0)\<close>\<close>

definition get0 :: "('k \<rightharpoonup> nat) \<Rightarrow> 'k \<Rightarrow> nat" where
  "get0 d key = (case d key of None \<Rightarrow> 0 | Some n \<Rightarrow> n)"

fun count_loop :: "(string \<rightharpoonup> nat) \<Rightarrow> AgentFinding list \<Rightarrow> (string \<rightharpoonup> nat)" where
  "count_loop counts [] = counts"
| "count_loop counts (finding # findings) =
     count_loop (counts(severity finding \<mapsto> get0 counts (severity finding) + 1)) findings"

definition count_by_severity :: "AgentFinding list \<Rightarrow> (string \<rightharpoonup> nat)" where
  "count_by_severity findings = count_loop Map.empty findings"

definition format_finding :: "AgentFinding \<Rightarrow> string \<Rightarrow> string" where
  "format_finding finding agent_type =
     (let location =
            (case line_number finding of
               None \<Rightarrow> file_path finding
             | Some n \<Rightarrow> file_path finding @ '':'' @ str_int n);
          lines =
            [''<details>'',
             ''<summary><b>'' @ title finding @ ''</b> ('' @ location @ '') - '' @ agent_type
               @ ''</summary>'',
             [],
             ''**File:** `'' @ file_path finding @ ''`''];
          lines =
            (case line_number finding of
               None \<Rightarrow> lines
             | Some n \<Rightarrow> lines @ [''**Line:** '' @ str_int n]);
          lines = lines @ [''**Agent:** '' @ agent_type, [], description finding];
          lines =
            (case suggestion finding of
               None \<Rightarrow> lines
             | Some text \<Rightarrow> if text = [] then lines else lines @ [[], ''**Suggestion:** '' @ text]);
          lines = lines @ [[], ''</details>'']
      in join [newline] lines)"

definition format_no_issues :: string where
  "format_no_issues =
     ''## CodeGuard AI Review'' @ [newline, newline]
     @ ''No issues found! Your code looks good.'' @ [newline, newline]
     @ ''---'' @ [newline]
     @ ''*Automated review by CodeGuard AI*''"

text \<open>One line of the summary block, for a severity with its count.\<close>

definition summary_line :: "string \<Rightarrow> string \<Rightarrow> nat \<Rightarrow> string" where
  "summary_line emoji label count =
     ''- '' @ emoji @ '' **'' @ str_nat count @ '' '' @ label @ ''** ''
       @ (if count \<noteq> 1 then ''issues'' else ''issue'')"

fun summary_loop ::
  "(string \<rightharpoonup> nat) \<Rightarrow> string list \<Rightarrow> string list \<Rightarrow> py_error + string list" where
  "summary_loop counts lines [] = Inr lines"
| "summary_loop counts lines (sev # rest) =
     (let count = get0 counts sev in
      if count > 0 then
        (case SEVERITY_EMOJI sev of
           None \<Rightarrow> Inl (KeyError sev)
         | Some emoji \<Rightarrow>
             (case SEVERITY_LABEL sev of
                None \<Rightarrow> Inl (KeyError sev)
              | Some label \<Rightarrow> summary_loop counts (lines @ [summary_line emoji label count]) rest))
      else summary_loop counts lines rest)"

text \<open>
  The grouping loop: \<open>findings_by_severity[finding.severity].append(...)\<close> raises
  \<open>KeyError\<close> for a severity that is not a key of the dictionary.
\<close>

fun group_loop ::
  "(string \<rightharpoonup> (AgentFinding \<times> string) list) \<Rightarrow> (AgentFinding \<times> string) list
   \<Rightarrow> py_error + (string \<rightharpoonup> (AgentFinding \<times> string) list)" where
  "group_loop by_severity [] = Inr by_severity"
| "group_loop by_severity ((finding, agent_type) # rest) =
     (case by_severity (severity finding) of
        None \<Rightarrow> Inl (KeyError (severity finding))
      | Some findings \<Rightarrow>
          group_loop (by_severity(severity finding \<mapsto> findings @ [(finding, agent_type)])) rest)"

fun entry_loop :: "string list \<Rightarrow> (AgentFinding \<times> string) list \<Rightarrow> string list" where
  "entry_loop lines [] = lines"
| "entry_loop lines ((finding, agent_type) # rest) =
     entry_loop (lines @ [format_finding finding agent_type, []]) rest"

fun section_loop ::
  "(string \<rightharpoonup> (AgentFinding \<times> string) list) \<Rightarrow> string list \<Rightarrow> string list
   \<Rightarrow> py_error + string list" where
  "section_loop by_severity lines [] = Inr lines"
| "section_loop by_severity lines (sev # rest) =
     (case by_severity sev of
        None \<Rightarrow> Inl (KeyError sev)
      | Some findings \<Rightarrow>
          (if findings \<noteq> [] then
             (case SEVERITY_EMOJI sev of
                None \<Rightarrow> Inl (KeyError sev)
              | Some emoji \<Rightarrow>
                  (case SEVERITY_LABEL sev of
                     None \<Rightarrow> Inl (KeyError sev)
                   | Some label \<Rightarrow>
                       section_loop by_severity
                         (entry_loop (lines @ [[], ''### '' @ emoji @ '' '' @ label @ '' Issues'', []])
                            findings)
                         rest))
           else section_loop by_severity lines rest))"

text \<open>\<open>{s: [] for s in cls.SEVERITY_ORDER}\<close>\<close>

definition empty_groups :: "string \<rightharpoonup> (AgentFinding \<times> string) list" where
  "empty_groups = map_of (map (\<lambda>s. (s, [])) SEVERITY_ORDER)"

text \<open>\<open>CommentFormatter.format\<close>\<close>

definition format_comment ::
  "AgentFinding list \<Rightarrow> AgentFinding list \<Rightarrow> AgentFinding list \<Rightarrow> py_error + string" where
  "format_comment logic_findings security_findings quality_findings =
     (let all_findings =
            map (\<lambda>finding. (finding, ''Logic'')) logic_findings
            @ map (\<lambda>finding. (finding, ''Security'')) security_findings
            @ map (\<lambda>finding. (finding, ''Quality'')) quality_findings
      in
      if all_findings = [] then Inr format_no_issues
      else
        (let combined_findings = map fst all_findings;
             counts = count_by_severity combined_findings;
             lines = [''## CodeGuard AI Review'', [], ''### Summary'']
         in
         case summary_loop counts lines SEVERITY_ORDER of
           Inl e \<Rightarrow> Inl e
         | Inr lines \<Rightarrow>
             (case group_loop empty_groups all_findings of
                Inl e \<Rightarrow> Inl e
              | Inr findings_by_severity \<Rightarrow>
                  (case section_loop findings_by_severity lines SEVERITY_ORDER of
                     Inl e \<Rightarrow> Inl e
                   | Inr lines \<Rightarrow>
                       Inr (join [newline]
                              (lines @ [''---'', ''*Automated review by CodeGuard AI*'']))))))"

section \<open>Pipeline driver (app/worker/processor.py)\<close>

definition PROGRESS_STAGES :: "string \<rightharpoonup> nat \<times> string" where
  "PROGRESS_STAGES =
     [''fetching_diff'' \<mapsto> (10, ''Fetching PR diff from GitHub''),
      ''fetching_context'' \<mapsto> (15, ''Fetching file context''),
      ''logic_agent'' \<mapsto> (25, ''Running Logic Agent''),
      ''security_agent'' \<mapsto> (40, ''Running Security Agent''),
      ''quality_agent'' \<mapsto> (55, ''Running Quality Agent''),
      ''critique_agent'' \<mapsto> (70, ''Running Critique Agent''),
      ''deduplicating'' \<mapsto> (80, ''Deduplicating findings''),
      ''formatting'' \<mapsto> (90, ''Formatting comment''),
      ''posting'' \<mapsto> (95, ''Posting to GitHub''),
      ''complete'' \<mapsto> (100, ''Review complete'')]"

definition map_agent_severity :: "string \<Rightarrow> Severity" where
  "map_agent_severity agent_severity =
     (let mapping = [''critical'' \<mapsto> CRITICAL, ''warning'' \<mapsto> MEDIUM, ''info'' \<mapsto> INFO]
      in case mapping agent_severity of None \<Rightarrow> INFO | Some s \<Rightarrow> s)"

definition map_agent_type :: "string \<Rightarrow> AgentType" where
  "map_agent_type agent_type_str =
     (let mapping = [''logic'' \<mapsto> LOGIC, ''security'' \<mapsto> SECURITY, ''quality'' \<mapsto> QUALITY]
      in case mapping agent_type_str of None \<Rightarrow> LOGIC | Some t \<Rightarrow> t)"

definition SEVERITY_RANK :: "Severity \<rightharpoonup> nat" where
  "SEVERITY_RANK = [CRITICAL \<mapsto> 0, HIGH \<mapsto> 1, MEDIUM \<mapsto> 2, LOW \<mapsto> 3, INFO \<mapsto> 4]"

text \<open>\<open>SEVERITY_RANK.get(s, 4)\<close>\<close>

definition rank_of :: "Severity \<Rightarrow> nat" where
  "rank_of s = (case SEVERITY_RANK s of None \<Rightarrow> 4 | Some r \<Rightarrow> r)"

text \<open>\<open>_map_finding\<close>\<close>

definition map_finding :: "AgentFinding \<Rightarrow> string \<Rightarrow> string \<Rightarrow> FindingCreate" where
  "map_finding finding review_id agent_type =
     \<lparr>f_agent_type = map_agent_type agent_type,
      f_severity = map_agent_severity (severity finding),
      f_file_path = file_path finding,
      f_line_number = line_number finding,
      f_title = title finding,
      f_description = description finding,
      f_suggestion = suggestion finding,
      f_confidence = confidence finding,
      f_is_false_positive = False,
      f_false_positive_reason = None,
      f_review_id = review_id\<rparr>"

text \<open>One of the three loops that map a bucket and keep what passes the threshold.\<close>

fun threshold_loop ::
  "nat \<Rightarrow> string \<Rightarrow> string \<Rightarrow> FindingCreate list \<Rightarrow> AgentFinding list \<Rightarrow> FindingCreate list" where
  "threshold_loop threshold_rank review_id agent_type all_findings [] = all_findings"
| "threshold_loop threshold_rank review_id agent_type all_findings (finding # findings) =
     (let mapped = map_finding finding review_id agent_type in
      if rank_of (f_severity mapped) \<le> threshold_rank
      then threshold_loop threshold_rank review_id agent_type (all_findings @ [mapped]) findings
      else threshold_loop threshold_rank review_id agent_type all_findings findings)"

record AgentsEnabled =
  logic :: bool
  security :: bool
  quality :: bool

record Settings =
  enabled :: bool
  agents_enabled :: AgentsEnabled
  severity_threshold :: Severity

text \<open>The final state of the orchestrator, as \<open>ReviewSupervisor.run\<close> returns it.\<close>

record ReviewState =
  pr_diff :: string
  pr_files :: "string list"
  logic_findings :: "AgentFinding list"
  security_findings :: "AgentFinding list"
  quality_findings :: "AgentFinding list"
  final_comment :: string

text \<open>
  \<open>job_data\<close>. The review id is the text of a UUID, as the queue writes it, so that
  \<open>UUID(review_id)\<close> does not raise.
\<close>

record Job =
  review_id :: string
  owner :: string
  repo :: string
  pr_number :: int
  commit_sha :: "string option"

datatype ReviewStatus = PENDING | PROCESSING | COMPLETED | FAILED

text \<open>
  What the run can change outside itself: the Review record, the stored findings, the
  comments on the pull request, the progress messages sent, and the seconds slept.
\<close>

record World =
  review_status :: ReviewStatus
  review_comment_id :: "int option"
  diff_content :: "string option"
  saved_findings :: "FindingCreate list"
  posted_comments :: "string list"
  progress :: "(string \<times> nat \<times> string) list"
  rate_increments :: nat
  slept :: "nat list"

text \<open>
  What the collaborators answer during one run: each call either raises or returns. The
  orchestrator's answer is the three buckets after reconciliation. File contents fetched
  for context are read-only requests whose failures \<open>_fetch_file_contents\<close> catches; they
  reach only the orchestrator and are left out.
\<close>

record Env =
  init_services :: "py_error option"
  update_status_result :: "ReviewStatus \<Rightarrow> py_error option"
  get_by_id_result :: "py_error + string option"
  get_by_repository_result :: "py_error + Settings option"
  get_pr_diff_result :: "py_error + string"
  update_diff_result :: "py_error option"
  ignore_file_result :: "py_error + string option"
  get_redis_client_result :: "py_error option"
  can_proceed_result :: "nat \<Rightarrow> py_error + bool"
  build_agents_result :: "py_error option"
  reconciled_result ::
    "string \<Rightarrow> string list \<Rightarrow> py_error + AgentFinding list \<times> AgentFinding list \<times> AgentFinding list"
  increment_result :: "py_error option"
  create_many_result :: "py_error option"
  post_comment_result :: "py_error + int option"

text \<open>The step of \<open>process_review\<close> at which an exception was raised.\<close>

datatype step =
  SetProcessing | GetReview | GetSettings | SetCompleted | FetchDiff | StoreDiff
  | FetchIgnoreFile | RedisClient | RateLimit | BuildAgents | AgentRun | RateIncrement
  | Persist | PostComment

text \<open>
  \<open>broadcast_progress\<close>: a stage outside the table is not sent; sending is best effort and
  does not raise.
\<close>

definition broadcast_progress :: "string \<Rightarrow> World \<Rightarrow> World" where
  "broadcast_progress stage w =
     (case PROGRESS_STAGES stage of
        None \<Rightarrow> w
      | Some (percent, message) \<Rightarrow> w\<lparr>progress := progress w @ [(stage, percent, message)]\<rparr>)"

text \<open>\<open>ReviewRepo.update_status\<close> on the record of this review.\<close>

definition update_status :: "ReviewStatus \<Rightarrow> int option \<Rightarrow> World \<Rightarrow> World" where
  "update_status status comment_id w =
     w\<lparr>review_status := status,
       review_comment_id := (case comment_id of None \<Rightarrow> review_comment_id w | Some c \<Rightarrow> Some c)\<rparr>"

text \<open>
  \<open>ReviewSupervisor.run\<close>: the buckets after reconciliation, and the comment that
  \<open>combine_findings\<close> renders from them.
\<close>

definition supervisor_run :: "Env \<Rightarrow> string \<Rightarrow> string list \<Rightarrow> py_error + ReviewState" where
  "supervisor_run env diff files =
     (case reconciled_result env diff files of
        Inl e \<Rightarrow> Inl e
      | Inr (logic_bucket, security_bucket, quality_bucket) \<Rightarrow>
          (case format_comment logic_bucket security_bucket quality_bucket of
             Inl e \<Rightarrow> Inl e
           | Inr comment \<Rightarrow>
               Inr \<lparr>pr_diff = diff, pr_files = files, logic_findings = logic_bucket,
                    security_findings = security_bucket, quality_findings = quality_bucket,
                    final_comment = comment\<rparr>))"

text \<open>Steps 6 to 9: threshold filtering, persistence, posting, completion.\<close>

definition collect_findings :: "Settings option \<Rightarrow> string \<Rightarrow> ReviewState \<Rightarrow> FindingCreate list" where
  "collect_findings repo_settings review result =
     (let severity_threshold =
            (case repo_settings of None \<Rightarrow> INFO | Some s \<Rightarrow> severity_threshold s);
          threshold_rank = rank_of severity_threshold;
          all_findings = threshold_loop threshold_rank review ''logic'' [] (logic_findings result);
          all_findings =
            threshold_loop threshold_rank review ''security'' all_findings (security_findings result);
          all_findings =
            threshold_loop threshold_rank review ''quality'' all_findings (quality_findings result)
      in all_findings)"

definition finish_review ::
  "Env \<Rightarrow> Job \<Rightarrow> Settings option \<Rightarrow> ReviewState \<Rightarrow> World \<Rightarrow> (step \<times> py_error) option \<times> World" where
  "finish_review env job repo_settings result w =
     (let w = broadcast_progress ''formatting'' w;
          all_findings = collect_findings repo_settings (review_id job) result
      in
      case (if all_findings \<noteq> [] then create_many_result env else None) of
        Some e \<Rightarrow> (Some (Persist, e), w)
      | None \<Rightarrow>
          (let w = (if all_findings \<noteq> [] then w\<lparr>saved_findings := saved_findings w @ all_findings\<rparr>
                    else w);
               w = broadcast_progress ''posting'' w;
               comment = final_comment result
           in
           case (if comment \<noteq> [] then post_comment_result env else Inr None) of
             Inl e \<Rightarrow> (Some (PostComment, e), w)
           | Inr comment_id \<Rightarrow>
               (let w = (if comment \<noteq> [] then w\<lparr>posted_comments := posted_comments w @ [comment]\<rparr>
                         else w)
                in
                case update_status_result env COMPLETED of
                  Some e \<Rightarrow> (Some (SetCompleted, e), w)
                | None \<Rightarrow> (None, broadcast_progress ''complete'' (update_status COMPLETED comment_id w)))))"

text \<open>
  Step 4: up to three checks of the rate limit, five seconds apart; the \<open>else\<close> of the
  \<open>for\<close> loop raises when none of them passed.
\<close>

fun rate_limit_loop :: "Env \<Rightarrow> nat \<Rightarrow> nat \<Rightarrow> World \<Rightarrow> py_error option \<times> World" where
  "rate_limit_loop env attempt 0 w =
     (Some (OtherError ''Rate limit exceeded after max retries''), w)"
| "rate_limit_loop env attempt (Suc remaining) w =
     (case can_proceed_result env attempt of
        Inl e \<Rightarrow> (Some e, w)
      | Inr True \<Rightarrow> (None, w)
      | Inr False \<Rightarrow>
          rate_limit_loop env (attempt + 1) remaining
            (if attempt < 3 - 1 then w\<lparr>slept := slept w @ [5]\<rparr> else w))"

text \<open>Steps 4 and 5: rate limit, agents, the orchestrator run.\<close>

definition run_agents ::
  "Env \<Rightarrow> Job \<Rightarrow> Settings option \<Rightarrow> string \<Rightarrow> string list \<Rightarrow> World
   \<Rightarrow> (step \<times> py_error) option \<times> World" where
  "run_agents env job repo_settings diff files w =
     (case get_redis_client_result env of
        Some e \<Rightarrow> (Some (RedisClient, e), w)
      | None \<Rightarrow>
          (case rate_limit_loop env 0 3 w of
             (Some e, w) \<Rightarrow> (Some (RateLimit, e), w)
           | (None, w) \<Rightarrow>
               (case build_agents_result env of
                  Some e \<Rightarrow> (Some (BuildAgents, e), w)
                | None \<Rightarrow>
                    (let w = broadcast_progress ''logic_agent'' w in
                     case supervisor_run env diff files of
                       Inl e \<Rightarrow> (Some (AgentRun, e), w)
                     | Inr result \<Rightarrow>
                         (let w = broadcast_progress ''critique_agent'' w in
                          case increment_result env of
                            Some e \<Rightarrow> (Some (RateIncrement, e), w)
                          | None \<Rightarrow>
                              finish_review env job repo_settings result
                                (w\<lparr>rate_increments := rate_increments w + 1\<rparr>))))))"

text \<open>Steps 2 and 3: the diff, its storage, the ignore rules and the filtering.\<close>

definition review_diff ::
  "Env \<Rightarrow> Job \<Rightarrow> Settings option \<Rightarrow> World \<Rightarrow> (step \<times> py_error) option \<times> World" where
  "review_diff env job repo_settings w =
     (let w = broadcast_progress ''fetching_diff'' w in
      case get_pr_diff_result env of
        Inl e \<Rightarrow> (Some (FetchDiff, e), w)
      | Inr diff \<Rightarrow>
          (case update_diff_result env of
             Some e \<Rightarrow> (Some (StoreDiff, e), w)
           | None \<Rightarrow>
               (let w = w\<lparr>diff_content := Some diff\<rparr>;
                    files = extract_files_from_diff diff
                in
                case ignore_file_result env of
                  Inl e \<Rightarrow> (Some (FetchIgnoreFile, e), w)
                | Inr ignore_content \<Rightarrow>
                    (let user_patterns =
                           (case ignore_content of
                              None \<Rightarrow> []
                            | Some content \<Rightarrow> if content = [] then [] else parse_ignore_file content)
                     in
                     case filter_diff diff user_patterns of
                       (diff, files, ignored_files) \<Rightarrow>
                         run_agents env job repo_settings diff files
                           (broadcast_progress ''fetching_context'' w)))))"

text \<open>The body of the \<open>try\<close>: the step that raised and its exception, or nothing.\<close>

definition try_body :: "Env \<Rightarrow> Job \<Rightarrow> World \<Rightarrow> (step \<times> py_error) option \<times> World" where
  "try_body env job w =
     (case update_status_result env PROCESSING of
        Some e \<Rightarrow> (Some (SetProcessing, e), w)
      | None \<Rightarrow>
          (let w = update_status PROCESSING None w in
           case get_by_id_result env of
             Inl e \<Rightarrow> (Some (GetReview, e), w)
           | Inr review \<Rightarrow>
               (case (case review of None \<Rightarrow> Inr None | Some repository_id \<Rightarrow> get_by_repository_result env) of
                  Inl e \<Rightarrow> (Some (GetSettings, e), w)
                | Inr repo_settings \<Rightarrow>
                    (if (case repo_settings of None \<Rightarrow> False | Some s \<Rightarrow> \<not> enabled s) then
                       (case update_status_result env COMPLETED of
                          Some e \<Rightarrow> (Some (SetCompleted, e), w)
                        | None \<Rightarrow>
                            (None, broadcast_progress ''complete'' (update_status COMPLETED None w)))
                     else review_diff env job repo_settings w))))"

text \<open>
  \<open>process_review\<close>: an exception of the initialisation before the \<open>try\<close> leaves the
  function; one raised inside the \<open>try\<close> is caught, and the handler sets the status to
  failed, swallowing a failure of that update.
\<close>

definition process_review :: "Env \<Rightarrow> Job \<Rightarrow> World \<Rightarrow> py_error option \<times> World" where
  "process_review env job w =
     (case init_services env of
        Some e \<Rightarrow> (Some e, w)
      | None \<Rightarrow>
          (case try_body env job w of
             (None, w) \<Rightarrow> (None, w)
           | (Some raised, w) \<Rightarrow>
               (case update_status_result env FAILED of
                  Some status_error \<Rightarrow> (None, w)
                | None \<Rightarrow> (None, update_status FAILED None w))))"

section \<open>Structured model output (app/services/llm.py)\<close>









text \<open>
  \<open>response.content\<close>: a text, a list of texts, a list with other parts (carried as the
  text that \<open>json.dumps\<close> makes of it), or \<open>None\<close>.
\<close>

datatype content = Text string | Parts "string list" | Structured string | Nothing







section \<open>Validation of findings\<close>

text \<open>
  Validation against the declared field types, on input whose fields hold values of the
  declared Python types: a text for the literal and enumeration fields, an integer or
  \<open>None\<close> for the line number. A field with a default may be absent.
\<close>

record RawAgentFinding =
  raw_severity :: string
  raw_confidence :: "string option"
  raw_file_path :: string
  raw_line_number :: "int option"
  raw_title :: string
  raw_description :: string
  raw_suggestion :: "string option"

text \<open>\<open>AgentFinding.model_validate\<close>\<close>

definition validate_AgentFinding :: "RawAgentFinding \<Rightarrow> py_error + AgentFinding" where
  "validate_AgentFinding raw =
     (if raw_severity raw \<notin> set [''critical'', ''warning'', ''info'']
      then Inl (ValidationError ''severity'')
      else
        (case (case raw_confidence raw of None \<Rightarrow> Some ''medium''
               | Some c \<Rightarrow> if c \<in> set [''high'', ''medium'', ''low''] then Some c else None) of
           None \<Rightarrow> Inl (ValidationError ''confidence'')
         | Some c \<Rightarrow>
             Inr \<lparr>severity = raw_severity raw, confidence = c, file_path = raw_file_path raw,
                  line_number = raw_line_number raw, title = raw_title raw,
                  description = raw_description raw, suggestion = raw_suggestion raw\<rparr>))"

record RawFindingBase =
  raw_f_agent_type :: string
  raw_f_severity :: string
  raw_f_file_path :: string
  raw_f_line_number :: "int option"
  raw_f_title :: string
  raw_f_description :: string
  raw_f_suggestion :: "string option"
  raw_f_confidence :: "string option"
  raw_f_is_false_positive :: "bool option"
  raw_f_false_positive_reason :: "string option"

text \<open>The values of the enumerations \<open>AgentType\<close> and \<open>Severity\<close>.\<close>

definition AgentType_of :: "string \<rightharpoonup> AgentType" where
  "AgentType_of = [''logic'' \<mapsto> LOGIC, ''security'' \<mapsto> SECURITY, ''quality'' \<mapsto> QUALITY]"

definition Severity_of :: "string \<rightharpoonup> Severity" where
  "Severity_of =
     [''critical'' \<mapsto> CRITICAL, ''high'' \<mapsto> HIGH, ''medium'' \<mapsto> MEDIUM, ''low'' \<mapsto> LOW,
      ''info'' \<mapsto> INFO]"

text \<open>\<open>FindingBase.model_validate\<close>\<close>

definition validate_FindingBase :: "RawFindingBase \<Rightarrow> py_error + FindingBase" where
  "validate_FindingBase raw =
     (case AgentType_of (raw_f_agent_type raw) of
        None \<Rightarrow> Inl (ValidationError ''agent_type'')
      | Some agent \<Rightarrow>
          (case Severity_of (raw_f_severity raw) of
             None \<Rightarrow> Inl (ValidationError ''severity'')
           | Some sev \<Rightarrow>
               Inr \<lparr>f_agent_type = agent, f_severity = sev, f_file_path = raw_f_file_path raw,
                    f_line_number = raw_f_line_number raw, f_title = raw_f_title raw,
                    f_description = raw_f_description raw, f_suggestion = raw_f_suggestion raw,
                    f_confidence = (case raw_f_confidence raw of None \<Rightarrow> ''medium'' | Some c \<Rightarrow> c),
                    f_is_false_positive =
                      (case raw_f_is_false_positive raw of None \<Rightarrow> False | Some b \<Rightarrow> b),
                    f_false_positive_reason = raw_f_false_positive_reason raw\<rparr>))"

section \<open>Notions used to state the properties\<close>



text \<open>
  Every finding of the three buckets, mapped for storage, in the order logic, security,
  quality.
\<close>

definition mapped_findings :: "string \<Rightarrow> ReviewState \<Rightarrow> FindingCreate list" where
  "mapped_findings rid result =
     map (\<lambda>f. map_finding f rid ''logic'') (logic_findings result)
     @ map (\<lambda>f. map_finding f rid ''security'') (security_findings result)
     @ map (\<lambda>f. map_finding f rid ''quality'') (quality_findings result)"

text \<open>
  The report as the specification lays it out, to be compared with \<open>format_comment\<close>: the
  number of findings of a severity over all buckets, the entries of a severity in the
  order logic, security, quality, one summary line for a count above zero, one section
  for a severity that has entries.
\<close>

definition severity_count :: "string \<Rightarrow> AgentFinding list \<Rightarrow> nat" where
  "severity_count sev findings = length (filter (\<lambda>f. severity f = sev) findings)"

definition entries_of_severity ::
  "string \<Rightarrow> AgentFinding list \<Rightarrow> AgentFinding list \<Rightarrow> AgentFinding list
   \<Rightarrow> (AgentFinding \<times> string) list" where
  "entries_of_severity sev logic_bucket security_bucket quality_bucket =
     map (\<lambda>f. (f, ''Logic'')) (filter (\<lambda>f. severity f = sev) logic_bucket)
     @ map (\<lambda>f. (f, ''Security'')) (filter (\<lambda>f. severity f = sev) security_bucket)
     @ map (\<lambda>f. (f, ''Quality'')) (filter (\<lambda>f. severity f = sev) quality_bucket)"

definition spec_summary :: "string \<Rightarrow> string \<Rightarrow> nat \<Rightarrow> string list" where
  "spec_summary emoji label n =
     (if n = 0 then []
      else [''- '' @ emoji @ '' **'' @ str_nat n @ '' '' @ label @ ''** ''
              @ (if n = 1 then ''issue'' else ''issues'')])"

definition spec_section :: "string \<Rightarrow> string \<Rightarrow> (AgentFinding \<times> string) list \<Rightarrow> string list" where
  "spec_section emoji label entries =
     (if entries = [] then []
      else [[], ''### '' @ emoji @ '' '' @ label @ '' Issues'', []]
           @ concat (map (\<lambda>(f, agent). [format_finding f agent, []]) entries))"

definition spec_report ::
  "AgentFinding list \<Rightarrow> AgentFinding list \<Rightarrow> AgentFinding list \<Rightarrow> string" where
  "spec_report logic_bucket security_bucket quality_bucket =
     (let everything = logic_bucket @ security_bucket @ quality_bucket;
          entries = (\<lambda>sev. entries_of_severity sev logic_bucket security_bucket quality_bucket)
      in join [newline]
           ([''## CodeGuard AI Review'', [], ''### Summary'']
            @ spec_summary red_circle ''Critical'' (severity_count ''critical'' everything)
            @ spec_summary yellow_circle ''Warning'' (severity_count ''warning'' everything)
            @ spec_summary blue_circle ''Info'' (severity_count ''info'' everything)
            @ spec_section red_circle ''Critical'' (entries ''critical'')
            @ spec_section yellow_circle ''Warning'' (entries ''warning'')
            @ spec_section blue_circle ''Info'' (entries ''info'')
            @ [''---'', ''*Automated review by CodeGuard AI*'']))"







section \<open>Example run\<close>

definition example_finding :: "string \<Rightarrow> string \<Rightarrow> AgentFinding" where
  "example_finding sev name =
     \<lparr>severity = sev, confidence = ''medium'', file_path = ''app.py'', line_number = Some 3,
      title = name, description = ''Description'', suggestion = None\<rparr>"

definition example_settings :: "Severity \<Rightarrow> Settings" where
  "example_settings threshold =
     \<lparr>enabled = True, agents_enabled = \<lparr>logic = True, security = True, quality = True\<rparr>,
      severity_threshold = threshold\<rparr>"

definition example_diff :: string where
  "example_diff = ''diff --git a/app.py b/app.py'' @ [newline] @ ''+code'' @ [newline]"


text \<open>
  Every collaborator answers; the repository has the threshold \<open>critical\<close>; the
  orchestrator reports one informational finding of the logic pass.
\<close>

definition example_env :: Env where
  "example_env =
     \<lparr>init_services = None,
      update_status_result = (\<lambda>status. None),
      get_by_id_result = Inr (Some ''repository''),
      get_by_repository_result = Inr (Some (example_settings CRITICAL)),
      get_pr_diff_result = Inr example_diff,
      update_diff_result = None,
      ignore_file_result = Inr None,
      get_redis_client_result = None,
      can_proceed_result = (\<lambda>attempt. Inr True),
      build_agents_result = None,
      reconciled_result = (\<lambda>diff files. Inr ([example_finding ''info'' ''Note''], [], [])),
      increment_result = None,
      create_many_result = None,
      post_comment_result = Inr (Some 12345)\<rparr>"

text \<open>The same run without repository settings, where posting the comment fails.\<close>

definition failing_post_env :: Env where
  "failing_post_env =
     example_env\<lparr>get_by_repository_result := Inr None,
                  post_comment_result := Inl (OtherError ''host error'')\<rparr>"

text \<open>The same run where fetching the diff fails.\<close>

definition failing_diff_env :: Env where
  "failing_diff_env = example_env\<lparr>get_pr_diff_result := Inl (OtherError ''host error'')\<rparr>"

text \<open>What the orchestrator returns in the example run, but for the comment.\<close>

definition example_state :: ReviewState where
  "example_state =
     \<lparr>pr_diff = example_diff, pr_files = [''app.py''],
      logic_findings = [example_finding ''info'' ''Note''], security_findings = [],
      quality_findings = [], final_comment = []\<rparr>"

definition example_job :: Job where
  "example_job =
     \<lparr>review_id = ''550e8400-e29b-41d4-a716-446655440000'', owner = ''testuser'',
      repo = ''testrepo'', pr_number = 1, commit_sha = Some ''abc123''\<rparr>"

definition new_world :: World where
  "new_world =
     \<lparr>review_status = PENDING, review_comment_id = None, diff_content = None, saved_findings = [],
      posted_comments = [], progress = [], rate_increments = 0, slept = []\<rparr>"


text \<open>An agent finding as received, with a line number below zero.\<close>

definition negative_line_raw :: RawAgentFinding where
  "negative_line_raw =
     \<lparr>raw_severity = ''warning'', raw_confidence = None, raw_file_path = ''app.py'',
      raw_line_number = Some (- 1), raw_title = ''Title'', raw_description = ''Description'',
      raw_suggestion = None\<rparr>"

text \<open>A stored finding as received, with a confidence outside high, medium, low.\<close>

definition odd_confidence_raw :: RawFindingBase where
  "odd_confidence_raw =
     \<lparr>raw_f_agent_type = ''logic'', raw_f_severity = ''high'', raw_f_file_path = ''app.py'',
      raw_f_line_number = Some (- 1), raw_f_title = ''Title'', raw_f_description = ''Description'',
      raw_f_suggestion = None, raw_f_confidence = Some ''certain'',
      raw_f_is_false_positive = None, raw_f_false_positive_reason = None\<rparr>"



section \<open>Properties\<close>

subsection \<open>Diff segmenter and ignore filter\<close>


lemma split_sections_hd: "\<exists>a rest. split_sections bol cur s = (cur @ a) # rest"
proof (induction s arbitrary: bol cur)
  case Nil
  show ?case by simp
next
  case (Cons c cs)
  show ?case
  proof (cases "bol \<and> prefix ''diff --git '' (c # cs)")
    case True
    then have "split_sections bol cur (c # cs) = (cur @ []) # split_sections False [c] cs" by simp
    then show ?thesis by blast
  next
    case False
    from Cons[of "c = newline" "cur @ [c]"] obtain a rest where
      "split_sections (c = newline) (cur @ [c]) cs = ((cur @ [c]) @ a) # rest" by blast
    with False have "split_sections bol cur (c # cs) = (cur @ (c # a)) # rest" by auto
    then show ?thesis by blast
  qed
qed




text \<open>
  A text without line feed that starts in the pending section and goes on in the rest lies
  wholly in the first section.
\<close>

lemma split_sections_keeps_prefix:
  "newline \<notin> set m \<Longrightarrow> prefix m (cur @ s) \<Longrightarrow> prefix cur m \<Longrightarrow> cur \<noteq> [] \<Longrightarrow> last cur \<noteq> newline
   \<Longrightarrow> \<not> bol \<Longrightarrow> prefix m (hd (split_sections bol cur s))"
proof (induction s arbitrary: bol cur)
  case Nil
  then show ?case by simp
next
  case (Cons c cs)
  from Cons.prems have step: "split_sections bol cur (c # cs) = split_sections (c = newline) (cur @ [c]) cs"
    by simp
  show ?case
  proof (cases "cur = m")
    case True
    obtain a rest where "split_sections (c = newline) (cur @ [c]) cs = ((cur @ [c]) @ a) # rest"
      using split_sections_hd by blast
    with True step show ?thesis by simp
  next
    case False
    with Cons.prems obtain x xs where m: "m = cur @ x # xs"
      by (metis prefix_def list.exhaust append_Nil2)
    with Cons.prems have "x = c" by (simp add: prefix_def)
    with m Cons.prems have cn: "c \<noteq> newline" by auto
    have "prefix m (hd (split_sections (c = newline) (cur @ [c]) cs))"
      by (rule Cons.IH) (use Cons.prems m \<open>x = c\<close> cn in auto)
    with step show ?thesis by simp
  qed
qed

lemma split_sections_tl_marker:
  "x \<in> set (tl (split_sections bol cur s)) \<Longrightarrow> prefix ''diff --git '' x"
proof (induction s arbitrary: bol cur x)
  case Nil
  then show ?case by simp
next
  case (Cons c cs)
  show ?case
  proof (cases "bol \<and> prefix ''diff --git '' (c # cs)")
    case True
    then have eq: "tl (split_sections bol cur (c # cs)) = split_sections False [c] cs" by simp
    obtain a rest where ys: "split_sections False [c] cs = ([c] @ a) # rest"
      using split_sections_hd by blast
    have "prefix ''diff --git '' (hd (split_sections False [c] cs))"
      by (rule split_sections_keeps_prefix) (use True in \<open>auto simp: newline_def\<close>)
    moreover have "y \<in> set rest \<Longrightarrow> prefix ''diff --git '' y" for y
      using Cons.IH[of y False "[c]"] ys by simp
    ultimately show ?thesis using Cons.prems eq ys by auto
  next
    case False
    then have "tl (split_sections bol cur (c # cs)) = tl (split_sections (c = newline) (cur @ [c]) cs)"
      by auto
    with Cons show ?thesis by auto
  qed
qed



























subsection \<open>Pipeline driver\<close>

lemma threshold_loop_filter:
  "threshold_loop r rid agent acc fs =
     acc @ filter (\<lambda>m. rank_of (f_severity m) \<le> r) (map (\<lambda>f. map_finding f rid agent) fs)"
  by (induction fs arbitrary: acc) (simp_all add: Let_def)

lemma collect_findings_filter:
  "collect_findings st rid result =
     filter (\<lambda>m. rank_of (f_severity m) \<le> rank_of (case st of None \<Rightarrow> INFO | Some s \<Rightarrow> severity_threshold s))
       (map (\<lambda>f. map_finding f rid ''logic'') (logic_findings result)
        @ map (\<lambda>f. map_finding f rid ''security'') (security_findings result)
        @ map (\<lambda>f. map_finding f rid ''quality'') (quality_findings result))"
  by (simp add: collect_findings_def threshold_loop_filter Let_def)

lemma rank_of_values:
  "rank_of CRITICAL = 0" "rank_of HIGH = 1" "rank_of MEDIUM = 2" "rank_of LOW = 3" "rank_of INFO = 4"
  by (simp_all add: rank_of_def SEVERITY_RANK_def)

lemma rank_of_le_4: "rank_of s \<le> 4"
  by (cases s) (simp_all add: rank_of_values)

lemma rank_of_zero: "rank_of s \<le> 0 \<longleftrightarrow> s = CRITICAL"
  by (cases s) (simp_all add: rank_of_values)

lemma map_agent_severity_values:
  "map_agent_severity ''critical'' = CRITICAL"
  "map_agent_severity ''warning'' = MEDIUM"
  "map_agent_severity ''info'' = INFO"
  by (simp_all add: map_agent_severity_def)

lemma broadcast_known:
  "broadcast_progress ''fetching_diff'' w = w\<lparr>progress := progress w @ [(''fetching_diff'', 10, ''Fetching PR diff from GitHub'')]\<rparr>"
  "broadcast_progress ''fetching_context'' w = w\<lparr>progress := progress w @ [(''fetching_context'', 15, ''Fetching file context'')]\<rparr>"
  "broadcast_progress ''logic_agent'' w = w\<lparr>progress := progress w @ [(''logic_agent'', 25, ''Running Logic Agent'')]\<rparr>"
  "broadcast_progress ''critique_agent'' w = w\<lparr>progress := progress w @ [(''critique_agent'', 70, ''Running Critique Agent'')]\<rparr>"
  "broadcast_progress ''formatting'' w = w\<lparr>progress := progress w @ [(''formatting'', 90, ''Formatting comment'')]\<rparr>"
  "broadcast_progress ''posting'' w = w\<lparr>progress := progress w @ [(''posting'', 95, ''Posting to GitHub'')]\<rparr>"
  "broadcast_progress ''complete'' w = w\<lparr>progress := progress w @ [(''complete'', 100, ''Review complete'')]\<rparr>"
  by (simp_all add: broadcast_progress_def PROGRESS_STAGES_def)

text \<open>What steps 6 to 9 do, by outcome.\<close>
lemma finish_review_outcome:
  "(case finish_review env job st result w of
      (None, w') \<Rightarrow>
        review_status w' = COMPLETED
        \<and> saved_findings w' = saved_findings w @ collect_findings st (review_id job) result
        \<and> posted_comments w' = posted_comments w @ (if final_comment result = [] then [] else [final_comment result])
        \<and> progress w' = progress w @ [(''formatting'', 90, ''Formatting comment''), (''posting'', 95, ''Posting to GitHub''), (''complete'', 100, ''Review complete'')]
    | (Some (stp, e), w') \<Rightarrow>
        review_status w' = review_status w
        \<and> stp \<in> {Persist, PostComment, SetCompleted}
        \<and> saved_findings w' = saved_findings w @ (if stp = Persist then [] else collect_findings st (review_id job) result)
        \<and> posted_comments w' = posted_comments w @ (if stp = SetCompleted \<and> final_comment result \<noteq> [] then [final_comment result] else []))"
  by (simp add: finish_review_def Let_def broadcast_known update_status_def
      split: option.split sum.split)

lemma rate_limit_loop_world:
  "rate_limit_loop env attempt n w = (r, w') \<Longrightarrow> \<exists>xs. w' = w\<lparr>slept := xs\<rparr>"
proof (induction n arbitrary: attempt w)
  case 0
  then have "w' = w\<lparr>slept := slept w\<rparr>" by simp
  then show ?case by blast
next
  case (Suc n)
  show ?case
  proof (cases "can_proceed_result env attempt")
    case (Inl e)
    with Suc.prems have "w' = w\<lparr>slept := slept w\<rparr>" by simp
    then show ?thesis by blast
  next
    case (Inr b)
    show ?thesis
    proof (cases b)
      case True
      with Inr Suc.prems have "w' = w\<lparr>slept := slept w\<rparr>" by simp
      then show ?thesis by blast
    next
      case False
      with Inr Suc.prems have
        "rate_limit_loop env (attempt + 1) n (if attempt < 3 - 1 then w\<lparr>slept := slept w @ [5]\<rparr> else w) = (r, w')"
        by simp
      from Suc.IH[OF this] obtain xs where
        "w' = (if attempt < 3 - 1 then w\<lparr>slept := slept w @ [5]\<rparr> else w)\<lparr>slept := xs\<rparr>" by blast
      then have "w' = w\<lparr>slept := xs\<rparr>" by (simp split: if_splits)
      then show ?thesis by blast
    qed
  qed
qed


lemma finish_review_cases:
  assumes ok: "\<And>w'. review_status w' = COMPLETED
        \<Longrightarrow> saved_findings w' = saved_findings w @ collect_findings st (review_id job) result
        \<Longrightarrow> posted_comments w' = posted_comments w @ (if final_comment result = [] then [] else [final_comment result])
        \<Longrightarrow> progress w' = progress w @ [(''formatting'', 90, ''Formatting comment''), (''posting'', 95, ''Posting to GitHub''), (''complete'', 100, ''Review complete'')]
        \<Longrightarrow> Q (None, w')"
    and fail: "\<And>stp e w'. review_status w' = review_status w
        \<Longrightarrow> stp \<in> {Persist, PostComment, SetCompleted}
        \<Longrightarrow> saved_findings w' = saved_findings w @ (if stp = Persist then [] else collect_findings st (review_id job) result)
        \<Longrightarrow> posted_comments w' = posted_comments w @ (if stp = SetCompleted \<and> final_comment result \<noteq> [] then [final_comment result] else [])
        \<Longrightarrow> Q (Some (stp, e), w')"
  shows "Q (finish_review env job st result w)"
proof -
  obtain r w' where eq: "finish_review env job st result w = (r, w')" by force
  note out = finish_review_outcome[where env=env and job=job and st=st and result=result and w=w, unfolded eq]
  show ?thesis
  proof (cases r)
    case None
    with out have
      "review_status w' = COMPLETED"
      "saved_findings w' = saved_findings w @ collect_findings st (review_id job) result"
      "posted_comments w' = posted_comments w @ (if final_comment result = [] then [] else [final_comment result])"
      "progress w' = progress w @ [(''formatting'', 90, ''Formatting comment''), (''posting'', 95, ''Posting to GitHub''), (''complete'', 100, ''Review complete'')]"
      by simp_all
    then have "Q (None, w')" by (rule ok)
    with None eq show ?thesis by simp
  next
    case (Some a)
    obtain stp e where a: "a = (stp, e)" by force
    with Some out have
      "review_status w' = review_status w"
      "stp \<in> {Persist, PostComment, SetCompleted}"
      "saved_findings w' = saved_findings w @ (if stp = Persist then [] else collect_findings st (review_id job) result)"
      "posted_comments w' = posted_comments w @ (if stp = SetCompleted \<and> final_comment result \<noteq> [] then [final_comment result] else [])"
      by simp_all
    then have "Q (Some (stp, e), w')" by (rule fail)
    with Some a eq show ?thesis by simp
  qed
qed

lemma run_agents_cases:
  assumes ok: "\<And>result w'. supervisor_run env diff files = Inr result
        \<Longrightarrow> review_status w' = COMPLETED
        \<Longrightarrow> saved_findings w' = saved_findings w @ collect_findings st (review_id job) result
        \<Longrightarrow> posted_comments w' = posted_comments w @ (if final_comment result = [] then [] else [final_comment result])
        \<Longrightarrow> progress w' = progress w @ [(''logic_agent'', 25, ''Running Logic Agent''), (''critique_agent'', 70, ''Running Critique Agent''), (''formatting'', 90, ''Formatting comment''), (''posting'', 95, ''Posting to GitHub''), (''complete'', 100, ''Review complete'')]
        \<Longrightarrow> Q (None, w')"
    and fail: "\<And>stp e w'. review_status w' = review_status w
        \<Longrightarrow> (stp \<notin> {PostComment, SetCompleted} \<longrightarrow> saved_findings w' = saved_findings w)
        \<Longrightarrow> (stp \<noteq> SetCompleted \<longrightarrow> posted_comments w' = posted_comments w)
        \<Longrightarrow> (stp = PostComment \<longrightarrow> (\<exists>result. supervisor_run env diff files = Inr result
               \<and> saved_findings w' = saved_findings w @ collect_findings st (review_id job) result))
        \<Longrightarrow> Q (Some (stp, e), w')"
  shows "Q (run_agents env job st diff files w)"
proof (cases "get_redis_client_result env")
  case (Some e)
  then have "run_agents env job st diff files w = (Some (RedisClient, e), w)"
    by (simp add: run_agents_def)
  then show ?thesis by (simp add: fail)
next
  case None
  obtain r1 w1 where rl: "rate_limit_loop env 0 3 w = (r1, w1)" by force
  then obtain xs where w1: "w1 = w\<lparr>slept := xs\<rparr>" using rate_limit_loop_world by blast
  show ?thesis
  proof (cases r1)
    case (Some e)
    with None rl have "run_agents env job st diff files w = (Some (RateLimit, e), w1)"
      by (simp add: run_agents_def)
    with w1 show ?thesis by (simp add: fail)
  next
    case r1: None
    show ?thesis
    proof (cases "build_agents_result env")
      case (Some e)
      with None rl r1 have "run_agents env job st diff files w = (Some (BuildAgents, e), w1)"
        by (simp add: run_agents_def)
      with w1 show ?thesis by (simp add: fail)
    next
      case b: None
      show ?thesis
      proof (cases "supervisor_run env diff files")
        case (Inl e)
        with None rl r1 b have "run_agents env job st diff files w
            = (Some (AgentRun, e), broadcast_progress ''logic_agent'' w1)"
          by (simp add: run_agents_def)
        with w1 show ?thesis by (simp add: fail broadcast_known)
      next
        case (Inr result)
        show ?thesis
        proof (cases "increment_result env")
          case (Some e)
          with None rl r1 b Inr have "run_agents env job st diff files w
              = (Some (RateIncrement, e),
                 broadcast_progress ''critique_agent'' (broadcast_progress ''logic_agent'' w1))"
            by (simp add: run_agents_def Let_def)
          with w1 show ?thesis by (simp add: fail broadcast_known)
        next
          case i: None
          let ?w2 = "(broadcast_progress ''critique_agent'' (broadcast_progress ''logic_agent'' w1))
                       \<lparr>rate_increments := rate_increments (broadcast_progress ''critique_agent'' (broadcast_progress ''logic_agent'' w1)) + 1\<rparr>"
          from None rl r1 b Inr i have eq: "run_agents env job st diff files w
              = finish_review env job st result ?w2"
            by (simp add: run_agents_def Let_def)
          show ?thesis unfolding eq
          proof (rule finish_review_cases)
            fix w' :: World assume "review_status w' = COMPLETED"
              "saved_findings w' = saved_findings ?w2 @ collect_findings st (review_id job) result"
              "posted_comments w' = posted_comments ?w2 @ (if final_comment result = [] then [] else [final_comment result])"
              "progress w' = progress ?w2 @ [(''formatting'', 90, ''Formatting comment''), (''posting'', 95, ''Posting to GitHub''), (''complete'', 100, ''Review complete'')]"
            with w1 Inr show "Q (None, w')"
              by (intro ok[of result]) (simp_all add: broadcast_known)
          next
            fix stp e and w' :: World assume "review_status w' = review_status ?w2"
              "stp \<in> {Persist, PostComment, SetCompleted}"
              "saved_findings w' = saved_findings ?w2 @ (if stp = Persist then [] else collect_findings st (review_id job) result)"
              "posted_comments w' = posted_comments ?w2 @ (if stp = SetCompleted \<and> final_comment result \<noteq> [] then [final_comment result] else [])"
            with w1 Inr show "Q (Some (stp, e), w')"
              by (intro fail) (auto simp: broadcast_known)
          qed
        qed
      qed
    qed
  qed
qed


text \<open>Steps 2 to 9, by outcome; the orchestrator gets the filtered diff and the kept files.\<close>

lemma review_diff_cases:
  assumes ok: "\<And>diff pats result w'. get_pr_diff_result env = Inr diff
        \<Longrightarrow> supervisor_run env (fst (filter_diff diff pats)) (fst (snd (filter_diff diff pats))) = Inr result
        \<Longrightarrow> review_status w' = COMPLETED
        \<Longrightarrow> saved_findings w' = saved_findings w @ collect_findings st (review_id job) result
        \<Longrightarrow> posted_comments w' = posted_comments w @ (if final_comment result = [] then [] else [final_comment result])
        \<Longrightarrow> progress w' = progress w @
              [(''fetching_diff'', 10, ''Fetching PR diff from GitHub''),
               (''fetching_context'', 15, ''Fetching file context''),
               (''logic_agent'', 25, ''Running Logic Agent''),
               (''critique_agent'', 70, ''Running Critique Agent''),
               (''formatting'', 90, ''Formatting comment''),
               (''posting'', 95, ''Posting to GitHub''),
               (''complete'', 100, ''Review complete'')]
        \<Longrightarrow> Q (None, w')"
    and fail: "\<And>stp e w'. review_status w' = review_status w
        \<Longrightarrow> (stp \<notin> {PostComment, SetCompleted} \<longrightarrow> saved_findings w' = saved_findings w)
        \<Longrightarrow> (stp \<noteq> SetCompleted \<longrightarrow> posted_comments w' = posted_comments w)
        \<Longrightarrow> (stp = PostComment \<longrightarrow> (\<exists>diff files result. supervisor_run env diff files = Inr result
               \<and> saved_findings w' = saved_findings w @ collect_findings st (review_id job) result))
        \<Longrightarrow> Q (Some (stp, e), w')"
  shows "Q (review_diff env job st w)"
proof (cases "get_pr_diff_result env")
  case (Inl e)
  then have "review_diff env job st w = (Some (FetchDiff, e), broadcast_progress ''fetching_diff'' w)"
    by (simp add: review_diff_def Let_def)
  then show ?thesis by (simp add: fail broadcast_known)
next
  case (Inr diff)
  show ?thesis
  proof (cases "update_diff_result env")
    case (Some e)
    with Inr have "review_diff env job st w = (Some (StoreDiff, e), broadcast_progress ''fetching_diff'' w)"
      by (simp add: review_diff_def Let_def)
    then show ?thesis by (simp add: fail broadcast_known)
  next
    case None
    let ?w1 = "(broadcast_progress ''fetching_diff'' w)\<lparr>diff_content := Some diff\<rparr>"
    show ?thesis
    proof (cases "ignore_file_result env")
      case (Inl e)
      with Inr None have "review_diff env job st w = (Some (FetchIgnoreFile, e), ?w1)"
        by (simp add: review_diff_def Let_def)
      then show ?thesis by (simp add: fail broadcast_known)
    next
      case ign: (Inr ignore_content)
      define pats where "pats = (case ignore_content of None \<Rightarrow> []
                            | Some content \<Rightarrow> if content = [] then [] else parse_ignore_file content)"
      let ?d = "fst (filter_diff diff pats)" and ?f = "fst (snd (filter_diff diff pats))"
      let ?w2 = "broadcast_progress ''fetching_context'' ?w1"
      from Inr None ign have eq: "review_diff env job st w = run_agents env job st ?d ?f ?w2"
        by (simp add: review_diff_def Let_def pats_def split: prod.split)
      show ?thesis unfolding eq
      proof (rule run_agents_cases)
        fix result and w' :: World
        assume "supervisor_run env ?d ?f = Inr result" "review_status w' = COMPLETED"
          "saved_findings w' = saved_findings ?w2 @ collect_findings st (review_id job) result"
          "posted_comments w' = posted_comments ?w2 @ (if final_comment result = [] then [] else [final_comment result])"
          "progress w' = progress ?w2 @ [(''logic_agent'', 25, ''Running Logic Agent''), (''critique_agent'', 70, ''Running Critique Agent''), (''formatting'', 90, ''Formatting comment''), (''posting'', 95, ''Posting to GitHub''), (''complete'', 100, ''Review complete'')]"
        with Inr show "Q (None, w')"
          by (intro ok[of diff pats result]) (simp_all add: broadcast_known)
      next
        fix stp e and w' :: World
        assume "review_status w' = review_status ?w2"
          "stp \<notin> {PostComment, SetCompleted} \<longrightarrow> saved_findings w' = saved_findings ?w2"
          "stp \<noteq> SetCompleted \<longrightarrow> posted_comments w' = posted_comments ?w2"
          "stp = PostComment \<longrightarrow> (\<exists>result. supervisor_run env ?d ?f = Inr result
               \<and> saved_findings w' = saved_findings ?w2 @ collect_findings st (review_id job) result)"
        then show "Q (Some (stp, e), w')"
          by (intro fail) (auto simp: broadcast_known)
      qed
    qed
  qed
qed

text \<open>The whole body of the \<open>try\<close>, by outcome.\<close>

lemma try_body_cases:
  assumes skipped: "\<And>s w'. get_by_repository_result env = Inr (Some s) \<Longrightarrow> \<not> enabled s
        \<Longrightarrow> review_status w' = COMPLETED
        \<Longrightarrow> saved_findings w' = saved_findings w
        \<Longrightarrow> posted_comments w' = posted_comments w
        \<Longrightarrow> progress w' = progress w @ [(''complete'', 100, ''Review complete'')]
        \<Longrightarrow> Q (None, w')"
    and ok: "\<And>st diff pats result w'.
        (case st of None \<Rightarrow> True | Some s \<Rightarrow> enabled s \<and> get_by_repository_result env = Inr (Some s))
        \<Longrightarrow> get_pr_diff_result env = Inr diff
        \<Longrightarrow> supervisor_run env (fst (filter_diff diff pats)) (fst (snd (filter_diff diff pats))) = Inr result
        \<Longrightarrow> review_status w' = COMPLETED
        \<Longrightarrow> saved_findings w' = saved_findings w @ collect_findings st (review_id job) result
        \<Longrightarrow> posted_comments w' = posted_comments w @ (if final_comment result = [] then [] else [final_comment result])
        \<Longrightarrow> progress w' = progress w @
              [(''fetching_diff'', 10, ''Fetching PR diff from GitHub''),
               (''fetching_context'', 15, ''Fetching file context''),
               (''logic_agent'', 25, ''Running Logic Agent''),
               (''critique_agent'', 70, ''Running Critique Agent''),
               (''formatting'', 90, ''Formatting comment''),
               (''posting'', 95, ''Posting to GitHub''),
               (''complete'', 100, ''Review complete'')]
        \<Longrightarrow> Q (None, w')"
    and fail: "\<And>stp e w'. review_status w' \<in> {review_status w, PROCESSING}
        \<Longrightarrow> (stp \<notin> {PostComment, SetCompleted} \<longrightarrow> saved_findings w' = saved_findings w)
        \<Longrightarrow> (stp \<noteq> SetCompleted \<longrightarrow> posted_comments w' = posted_comments w)
        \<Longrightarrow> (stp = PostComment \<longrightarrow> (\<exists>st diff files result. supervisor_run env diff files = Inr result
               \<and> saved_findings w' = saved_findings w @ collect_findings st (review_id job) result))
        \<Longrightarrow> Q (Some (stp, e), w')"
  shows "Q (try_body env job w)"
proof (cases "update_status_result env PROCESSING")
  case (Some e)
  then have "try_body env job w = (Some (SetProcessing, e), w)" by (simp add: try_body_def)
  then show ?thesis by (simp add: fail)
next
  case None
  let ?w1 = "update_status PROCESSING None w"
  have w1: "review_status ?w1 = PROCESSING" "saved_findings ?w1 = saved_findings w"
    "posted_comments ?w1 = posted_comments w" "progress ?w1 = progress w"
    by (simp_all add: update_status_def)
  show ?thesis
  proof (cases "get_by_id_result env")
    case (Inl e)
    with None have "try_body env job w = (Some (GetReview, e), ?w1)"
      by (simp add: try_body_def Let_def)
    with w1 show ?thesis by (simp add: fail)
  next
    case (Inr review)
    show ?thesis
    proof (cases "case review of None \<Rightarrow> Inr None | Some repository_id \<Rightarrow> get_by_repository_result env")
      case (Inl e)
      with None Inr have "try_body env job w = (Some (GetSettings, e), ?w1)"
        by (simp add: try_body_def Let_def)
      with w1 show ?thesis by (simp add: fail)
    next
      case st: (Inr st)
      have found: "get_by_repository_result env = Inr (Some s)" if "st = Some s" for s
        using st that by (cases review) simp_all
      show ?thesis
      proof (cases "case st of None \<Rightarrow> False | Some s \<Rightarrow> \<not> enabled s")
        case True
        then obtain s where s: "st = Some s" "\<not> enabled s" by (cases st) auto
        show ?thesis
        proof (cases "update_status_result env COMPLETED")
          case (Some e)
          with None Inr st True have "try_body env job w = (Some (SetCompleted, e), ?w1)"
            by (simp add: try_body_def Let_def)
          with w1 show ?thesis by (simp add: fail)
        next
          case c: None
          with None Inr st True have eq: "try_body env job w
              = (None, broadcast_progress ''complete'' (update_status COMPLETED None ?w1))"
            by (simp add: try_body_def Let_def)
          show ?thesis unfolding eq
            by (rule skipped[OF found[OF s(1)] s(2)])
              (simp_all add: broadcast_known update_status_def)
        qed
      next
        case False
        with None Inr st have eq: "try_body env job w = review_diff env job st ?w1"
          by (simp add: try_body_def Let_def)
        from False found have en: "case st of None \<Rightarrow> True
            | Some s \<Rightarrow> enabled s \<and> get_by_repository_result env = Inr (Some s)"
          by (cases st) simp_all
        show ?thesis unfolding eq
        proof (rule review_diff_cases)
          fix diff pats result and w' :: World
          assume "get_pr_diff_result env = Inr diff"
            "supervisor_run env (fst (filter_diff diff pats)) (fst (snd (filter_diff diff pats))) = Inr result"
            "review_status w' = COMPLETED"
            "saved_findings w' = saved_findings ?w1 @ collect_findings st (review_id job) result"
            "posted_comments w' = posted_comments ?w1 @ (if final_comment result = [] then [] else [final_comment result])"
            "progress w' = progress ?w1 @
              [(''fetching_diff'', 10, ''Fetching PR diff from GitHub''),
               (''fetching_context'', 15, ''Fetching file context''),
               (''logic_agent'', 25, ''Running Logic Agent''),
               (''critique_agent'', 70, ''Running Critique Agent''),
               (''formatting'', 90, ''Formatting comment''),
               (''posting'', 95, ''Posting to GitHub''),
               (''complete'', 100, ''Review complete'')]"
          with en w1 show "Q (None, w')"
            by (intro ok[of st diff pats result]) simp_all
        next
          fix stp e and w' :: World
          assume "review_status w' = review_status ?w1"
            "stp \<notin> {PostComment, SetCompleted} \<longrightarrow> saved_findings w' = saved_findings ?w1"
            "stp \<noteq> SetCompleted \<longrightarrow> posted_comments w' = posted_comments ?w1"
            "stp = PostComment \<longrightarrow> (\<exists>diff files result. supervisor_run env diff files = Inr result
               \<and> saved_findings w' = saved_findings ?w1 @ collect_findings st (review_id job) result)"
          with w1 show "Q (Some (stp, e), w')"
            by (intro fail) auto
        qed
      qed
    qed
  qed
qed


lemma summary_loop_extends:
  "summary_loop counts lines sevs = Inr lines' \<Longrightarrow> \<exists>more. lines' = lines @ more"
proof (induction sevs arbitrary: lines)
  case Nil
  then show ?case by simp
next
  case (Cons sev rest)
  show ?case
  proof (cases "get0 counts sev > 0")
    case False
    with Cons show ?thesis by simp
  next
    case True
    with Cons.prems obtain emoji label where
      "summary_loop counts (lines @ [summary_line emoji label (get0 counts sev)]) rest = Inr lines'"
      by (auto simp: Let_def split: option.splits)
    from Cons.IH[OF this] show ?thesis by auto
  qed
qed

lemma entry_loop_extends: "\<exists>more. entry_loop lines entries = lines @ more"
proof (induction entries arbitrary: lines)
  case Nil
  show ?case by simp
next
  case (Cons a entries)
  obtain f agent where a: "a = (f, agent)" by force
  from Cons[of "lines @ [format_finding f agent, []]"] a show ?case by auto
qed

lemma section_loop_extends:
  "section_loop groups lines sevs = Inr lines' \<Longrightarrow> \<exists>more. lines' = lines @ more"
proof (induction sevs arbitrary: lines)
  case Nil
  then show ?case by simp
next
  case (Cons sev rest)
  from Cons.prems obtain entries where g: "groups sev = Some entries"
    by (auto split: option.splits)
  show ?case
  proof (cases "entries = []")
    case True
    with Cons g show ?thesis by simp
  next
    case False
    with Cons.prems g obtain emoji label where
      "section_loop groups
         (entry_loop (lines @ [[], ''### '' @ emoji @ '' '' @ label @ '' Issues'', []]) entries) rest = Inr lines'"
      by (auto split: option.splits)
    from Cons.IH[OF this] obtain more where
      "lines' = entry_loop (lines @ [[], ''### '' @ emoji @ '' '' @ label @ '' Issues'', []]) entries @ more"
      by blast
    moreover obtain more' where
      "entry_loop (lines @ [[], ''### '' @ emoji @ '' '' @ label @ '' Issues'', []]) entries
         = (lines @ [[], ''### '' @ emoji @ '' '' @ label @ '' Issues'', []]) @ more'"
      using entry_loop_extends by blast
    ultimately show ?thesis by simp
  qed
qed

lemma join_first_nonempty: "x \<noteq> [] \<Longrightarrow> join sep (x # xs) \<noteq> []"
  by (cases xs) simp_all

lemma format_comment_nonempty:
  assumes "format_comment l s q = Inr comment"
  shows "comment \<noteq> []"
proof (cases "l = [] \<and> s = [] \<and> q = []")
  case True
  with assms have "comment = format_no_issues" by (simp add: format_comment_def)
  then show ?thesis by (simp add: format_no_issues_def)
next
  case False
  let ?all = "map (\<lambda>finding. (finding, ''Logic'')) l @ map (\<lambda>finding. (finding, ''Security'')) s
              @ map (\<lambda>finding. (finding, ''Quality'')) q"
  from False assms obtain lines1 groups lines2 where
    a: "summary_loop (count_by_severity (map fst ?all)) [''## CodeGuard AI Review'', [], ''### Summary''] SEVERITY_ORDER = Inr lines1"
    and b: "section_loop groups lines1 SEVERITY_ORDER = Inr lines2"
    and c: "comment = join [newline] (lines2 @ [''---'', ''*Automated review by CodeGuard AI*''])"
    by (auto simp: format_comment_def Let_def split: sum.splits if_splits)
  from summary_loop_extends[OF a] section_loop_extends[OF b] obtain more where
    "lines2 = ''## CodeGuard AI Review'' # more" by auto
  with c show ?thesis by (simp add: join_first_nonempty)
qed

lemma supervisor_run_result:
  assumes "supervisor_run env diff files = Inr result"
  shows "reconciled_result env diff files
           = Inr (logic_findings result, security_findings result, quality_findings result)"
    and "format_comment (logic_findings result) (security_findings result) (quality_findings result)
           = Inr (final_comment result)"
    and "final_comment result \<noteq> []"
proof -
  from assms show a: "reconciled_result env diff files
           = Inr (logic_findings result, security_findings result, quality_findings result)"
    and b: "format_comment (logic_findings result) (security_findings result) (quality_findings result)
           = Inr (final_comment result)"
    by (auto simp: supervisor_run_def split: sum.splits prod.splits)
  from b show "final_comment result \<noteq> []" by (rule format_comment_nonempty)
qed

text \<open>
  C1. A reconciled finding is kept for persistence if and only if the rank of its mapped
  severity is at most the rank of the configured threshold, where critical maps to
  critical, warning to medium and info to info, and the ranks are critical 0, high 1,
  medium 2, low 3, info 4. The threshold info, which is also the default without
  repository settings, keeps every finding; the threshold critical keeps only critical
  ones. In a run that completes, the stored findings are those kept, while the posted
  comment is the report that the orchestrator rendered from all reconciled findings,
  whatever the threshold.
\<close>

theorem severity_threshold_filtering:
  "collect_findings st rid result =
     filter (\<lambda>m. rank_of (f_severity m)
                   \<le> rank_of (case st of None \<Rightarrow> INFO | Some s \<Rightarrow> severity_threshold s))
       (mapped_findings rid result)
   \<and> f_severity (map_finding f rid agent) = map_agent_severity (severity f)
   \<and> map_agent_severity ''critical'' = CRITICAL
   \<and> map_agent_severity ''warning'' = MEDIUM
   \<and> map_agent_severity ''info'' = INFO
   \<and> rank_of CRITICAL = 0 \<and> rank_of HIGH = 1 \<and> rank_of MEDIUM = 2 \<and> rank_of LOW = 3
   \<and> rank_of INFO = 4
   \<and> collect_findings None rid result = mapped_findings rid result
   \<and> (severity_threshold s = INFO \<longrightarrow>
        collect_findings (Some s) rid result = mapped_findings rid result)
   \<and> (severity_threshold s = CRITICAL \<longrightarrow>
        collect_findings (Some s) rid result
          = filter (\<lambda>m. f_severity m = CRITICAL) (mapped_findings rid result))
   \<and> (try_body env job w = (None, w') \<longrightarrow>
        (\<exists>s. get_by_repository_result env = Inr (Some s) \<and> \<not> enabled s
             \<and> saved_findings w' = saved_findings w \<and> posted_comments w' = posted_comments w)
        \<or> (\<exists>st diff files result.
              (case st of None \<Rightarrow> True
               | Some s \<Rightarrow> enabled s \<and> get_by_repository_result env = Inr (Some s))
              \<and> supervisor_run env diff files = Inr result
              \<and> saved_findings w' = saved_findings w @ collect_findings st (review_id job) result
              \<and> format_comment (logic_findings result) (security_findings result)
                    (quality_findings result) = Inr (final_comment result)
              \<and> posted_comments w' = posted_comments w @ [final_comment result]))"
proof -
  have c: "collect_findings st rid result =
     filter (\<lambda>m. rank_of (f_severity m)
                   \<le> rank_of (case st of None \<Rightarrow> INFO | Some s \<Rightarrow> severity_threshold s))
       (mapped_findings rid result)" for st
    by (simp add: collect_findings_filter mapped_findings_def)
  have all: "collect_findings None rid result = mapped_findings rid result"
    by (simp add: c rank_of_le_4 rank_of_values)
  have info: "severity_threshold s = INFO \<longrightarrow>
        collect_findings (Some s) rid result = mapped_findings rid result"
    by (simp add: c rank_of_le_4 rank_of_values)
  have crit: "severity_threshold s = CRITICAL \<longrightarrow>
        collect_findings (Some s) rid result
          = filter (\<lambda>m. f_severity m = CRITICAL) (mapped_findings rid result)"
    using rank_of_zero by (simp add: c rank_of_values)
  have run: "try_body env job w = (None, w') \<longrightarrow>
        (\<exists>s. get_by_repository_result env = Inr (Some s) \<and> \<not> enabled s
             \<and> saved_findings w' = saved_findings w \<and> posted_comments w' = posted_comments w)
        \<or> (\<exists>st diff files result.
              (case st of None \<Rightarrow> True
               | Some s \<Rightarrow> enabled s \<and> get_by_repository_result env = Inr (Some s))
              \<and> supervisor_run env diff files = Inr result
              \<and> saved_findings w' = saved_findings w @ collect_findings st (review_id job) result
              \<and> format_comment (logic_findings result) (security_findings result)
                    (quality_findings result) = Inr (final_comment result)
              \<and> posted_comments w' = posted_comments w @ [final_comment result])"
    (is "_ \<longrightarrow> ?R w'")
  proof
    assume eq: "try_body env job w = (None, w')"
    have "case try_body env job w of (None, w') \<Rightarrow> ?R w' | (Some a, w') \<Rightarrow> True"
    proof (rule try_body_cases)
      fix s and w' :: World
      assume "get_by_repository_result env = Inr (Some s)" "\<not> enabled s"
        "saved_findings w' = saved_findings w" "posted_comments w' = posted_comments w"
      then show "case (None, w') of (None, w') \<Rightarrow> ?R w' | (Some a, w') \<Rightarrow> True"
        by auto
    next
      fix st diff pats result and w' :: World
      assume h: "case st of None \<Rightarrow> True
               | Some s \<Rightarrow> enabled s \<and> get_by_repository_result env = Inr (Some s)"
        "supervisor_run env (fst (filter_diff diff pats)) (fst (snd (filter_diff diff pats))) = Inr result"
        "saved_findings w' = saved_findings w @ collect_findings st (review_id job) result"
        "posted_comments w' = posted_comments w @ (if final_comment result = [] then [] else [final_comment result])"
      note sr = supervisor_run_result[OF h(2)]
      from h sr have "\<exists>st diff files result.
              (case st of None \<Rightarrow> True
               | Some s \<Rightarrow> enabled s \<and> get_by_repository_result env = Inr (Some s))
              \<and> supervisor_run env diff files = Inr result
              \<and> saved_findings w' = saved_findings w @ collect_findings st (review_id job) result
              \<and> format_comment (logic_findings result) (security_findings result)
                    (quality_findings result) = Inr (final_comment result)
              \<and> posted_comments w' = posted_comments w @ [final_comment result]"
        by (intro exI[of _ st] exI[of _ "fst (filter_diff diff pats)"]
            exI[of _ "fst (snd (filter_diff diff pats))"] exI[of _ result]) simp
      then show "case (None, w') of (None, w') \<Rightarrow> ?R w' | (Some a, w') \<Rightarrow> True"
        by simp
    next
      fix stp e and w' :: World
      show "case (Some (stp, e), w') of (None, w') \<Rightarrow> ?R w' | (Some a, w') \<Rightarrow> True" by simp
    qed
    with eq show "?R w'" by simp
  qed
  show ?thesis
    using c[of st] all info crit run
    by (simp only: map_agent_severity_values rank_of_values map_finding_def
        FindingBase.simps FindingCreate.simps simp_thms)
qed


text \<open>The example run: threshold critical, one informational finding.\<close>

theorem severity_threshold_filtering_witness:
  "severity_threshold (example_settings CRITICAL) = CRITICAL
   \<and> collect_findings (Some (example_settings CRITICAL)) (review_id example_job) example_state = []
   \<and> collect_findings None (review_id example_job) example_state
       = [map_finding (example_finding ''info'' ''Note'') (review_id example_job) ''logic'']
   \<and> try_body example_env example_job new_world
       = (None, snd (try_body example_env example_job new_world))
   \<and> saved_findings (snd (try_body example_env example_job new_world)) = []
   \<and> map Inr (posted_comments (snd (try_body example_env example_job new_world)))
       = [format_comment [example_finding ''info'' ''Note''] [] []]"
proof -
  have s: "severity_threshold (example_settings CRITICAL) = CRITICAL"
    by (simp add: example_settings_def)
  have m: "mapped_findings (review_id example_job) example_state
       = [map_finding (example_finding ''info'' ''Note'') (review_id example_job) ''logic'']"
    by (simp add: mapped_findings_def example_state_def)
  have sev: "f_severity (map_finding (example_finding ''info'' ''Note'') (review_id example_job) ''logic'') = INFO"
    by (simp add: map_finding_def example_finding_def map_agent_severity_def)
  have t: "fst (try_body example_env example_job new_world) = None" by code_simp
  then have t': "try_body example_env example_job new_world
       = (None, snd (try_body example_env example_job new_world))"
    by (metis prod.collapse)
  note T = severity_threshold_filtering[where st="Some (example_settings CRITICAL)"
      and rid="review_id example_job" and result=example_state and s="example_settings CRITICAL"
      and env=example_env and job=example_job and w=new_world
      and w'="snd (try_body example_env example_job new_world)"]
  from T s have "collect_findings (Some (example_settings CRITICAL)) (review_id example_job) example_state
      = filter (\<lambda>m. f_severity m = CRITICAL) (mapped_findings (review_id example_job) example_state)"
    by blast
  with m sev have a: "collect_findings (Some (example_settings CRITICAL)) (review_id example_job) example_state = []"
    by simp
  from T m have b: "collect_findings None (review_id example_job) example_state
       = [map_finding (example_finding ''info'' ''Note'') (review_id example_job) ''logic'']"
    by simp
  have c: "saved_findings (snd (try_body example_env example_job new_world)) = []" by code_simp
  have d: "map Inr (posted_comments (snd (try_body example_env example_job new_world)))
       = [format_comment [example_finding ''info'' ''Note''] [] []]" by code_simp
  from s a b t' c d show ?thesis by blast
qed

text \<open>
  In the example run the informational finding ranks below the threshold critical and is
  not stored, yet the comment posted to the host is the report that contains its entry.
\<close>

theorem severity_threshold_filtering_counterexample:
  "\<not> rank_of (map_agent_severity (severity (example_finding ''info'' ''Note'')))
       \<le> rank_of (severity_threshold (example_settings CRITICAL))
   \<and> get_by_repository_result example_env = Inr (Some (example_settings CRITICAL))
   \<and> review_status (snd (process_review example_env example_job new_world)) = COMPLETED
   \<and> saved_findings (snd (process_review example_env example_job new_world)) = []
   \<and> map Inr (posted_comments (snd (process_review example_env example_job new_world)))
       = [format_comment [example_finding ''info'' ''Note''] [] []]
   \<and> sublist (format_finding (example_finding ''info'' ''Note'') ''Logic'')
        (hd (posted_comments (snd (process_review example_env example_job new_world))))"
  by code_simp

text \<open>
  C2. When a step inside the \<open>try\<close> raises, the exception does not leave
  \<open>process_review\<close>, and the Review record ends in failed status whenever the status
  update of the handler succeeds. No comment has been posted unless the step that raised
  is the final status update; no findings have been persisted when the step that raised
  comes before the posting of the comment; when the posting raises, the findings that
  passed the threshold are already persisted and stay.
\<close>

theorem failure_handling:
  "init_services env = None \<Longrightarrow> try_body env job w = (Some (stp, e), w1) \<Longrightarrow>
     fst (process_review env job w) = None
     \<and> (update_status_result env FAILED = None \<longrightarrow>
          review_status (snd (process_review env job w)) = FAILED)
     \<and> (stp \<noteq> SetCompleted \<longrightarrow>
          posted_comments (snd (process_review env job w)) = posted_comments w)
     \<and> (stp \<notin> {PostComment, SetCompleted} \<longrightarrow>
          saved_findings (snd (process_review env job w)) = saved_findings w)
     \<and> (stp = PostComment \<longrightarrow>
          (\<exists>st diff files result. supervisor_run env diff files = Inr result
             \<and> saved_findings (snd (process_review env job w))
                 = saved_findings w @ collect_findings st (review_id job) result))"
proof -
  assume i: "init_services env = None" and t: "try_body env job w = (Some (stp, e), w1)"
  let ?P = "\<lambda>stp w1. (stp \<noteq> SetCompleted \<longrightarrow> posted_comments w1 = posted_comments w)
     \<and> (stp \<notin> {PostComment, SetCompleted} \<longrightarrow> saved_findings w1 = saved_findings w)
     \<and> (stp = PostComment \<longrightarrow>
          (\<exists>st diff files result. supervisor_run env diff files = Inr result
             \<and> saved_findings w1 = saved_findings w @ collect_findings st (review_id job) result))"
  have "case try_body env job w of (None, w') \<Rightarrow> True | (Some (stp, e), w') \<Rightarrow> ?P stp w'"
    by (rule try_body_cases) simp_all
  with t have p: "?P stp w1" by simp
  have f: "process_review env job w
      = (None, case update_status_result env FAILED of Some status_error \<Rightarrow> w1
               | None \<Rightarrow> update_status FAILED None w1)"
    using i t by (simp add: process_review_def split: option.split)
  show ?thesis
  proof (cases "update_status_result env FAILED")
    case None
    with f have "process_review env job w = (None, update_status FAILED None w1)" by simp
    with p None show ?thesis by (simp add: update_status_def)
  next
    case (Some a)
    with f have "process_review env job w = (None, w1)" by simp
    with p Some show ?thesis by simp
  qed
qed

text \<open>A run whose diff fetch fails.\<close>

theorem failure_handling_witness:
  "init_services failing_diff_env = None
   \<and> try_body failing_diff_env example_job new_world
       = (Some (FetchDiff, OtherError ''host error''),
          new_world\<lparr>review_status := PROCESSING,
                     progress := [(''fetching_diff'', 10, ''Fetching PR diff from GitHub'')]\<rparr>)
   \<and> update_status_result failing_diff_env FAILED = None
   \<and> fst (process_review failing_diff_env example_job new_world) = None
   \<and> review_status (snd (process_review failing_diff_env example_job new_world)) = FAILED
   \<and> posted_comments (snd (process_review failing_diff_env example_job new_world)) = []
   \<and> saved_findings (snd (process_review failing_diff_env example_job new_world)) = []"
proof -
  have i: "init_services failing_diff_env = None"
    by (simp add: failing_diff_env_def example_env_def)
  have t: "try_body failing_diff_env example_job new_world
       = (Some (FetchDiff, OtherError ''host error''),
          new_world\<lparr>review_status := PROCESSING,
                     progress := [(''fetching_diff'', 10, ''Fetching PR diff from GitHub'')]\<rparr>)"
    by code_simp
  have u: "update_status_result failing_diff_env FAILED = None"
    by (simp add: failing_diff_env_def example_env_def)
  have n: "posted_comments new_world = []" "saved_findings new_world = []"
    by (simp_all add: new_world_def)
  from failure_handling[OF i t] u n i t show ?thesis by simp
qed

text \<open>
  A run whose comment posting fails ends in failed status with no comment posted, but with
  its finding persisted.
\<close>

theorem failure_handling_counterexample:
  "fst (try_body failing_post_env example_job new_world)
     = Some (PostComment, OtherError ''host error'')
   \<and> review_status (snd (process_review failing_post_env example_job new_world)) = FAILED
   \<and> posted_comments (snd (process_review failing_post_env example_job new_world)) = []
   \<and> saved_findings (snd (process_review failing_post_env example_job new_world))
       = [map_finding (example_finding ''info'' ''Note'') (review_id example_job) ''logic'']"
  by code_simp

text \<open>
  C4. A run that completes broadcasts, in this order, fetching_diff(10),
  fetching_context(15), logic_agent(25), critique_agent(70), formatting(90), posting(95)
  and complete(100), or only complete(100) when the repository settings disable reviews.
  The percentages increase strictly, every message is the entry of its stage in
  \<open>PROGRESS_STAGES\<close>, and the last one is complete(100).
\<close>

theorem progress_checkpoints:
  "try_body env job w = (None, w') \<Longrightarrow>
     ((\<exists>s. get_by_repository_result env = Inr (Some s) \<and> \<not> enabled s)
        \<and> progress w' = progress w @ [(''complete'', 100, ''Review complete'')]
      \<or> progress w' = progress w @
              [(''fetching_diff'', 10, ''Fetching PR diff from GitHub''),
               (''fetching_context'', 15, ''Fetching file context''),
               (''logic_agent'', 25, ''Running Logic Agent''),
               (''critique_agent'', 70, ''Running Critique Agent''),
               (''formatting'', 90, ''Formatting comment''),
               (''posting'', 95, ''Posting to GitHub''),
               (''complete'', 100, ''Review complete'')])
     \<and> (\<exists>sent. progress w' = progress w @ sent
           \<and> sorted_wrt (<) (map (\<lambda>(stage, percent, message). percent) sent)
           \<and> list_all (\<lambda>(stage, percent, message). PROGRESS_STAGES stage = Some (percent, message)) sent
           \<and> last sent = (''complete'', 100, ''Review complete''))"
proof -
  assume t: "try_body env job w = (None, w')"
  let ?short = "[(''complete'', 100 :: nat, ''Review complete'')]"
  let ?full = "[(''fetching_diff'', 10 :: nat, ''Fetching PR diff from GitHub''),
               (''fetching_context'', 15, ''Fetching file context''),
               (''logic_agent'', 25, ''Running Logic Agent''),
               (''critique_agent'', 70, ''Running Critique Agent''),
               (''formatting'', 90, ''Formatting comment''),
               (''posting'', 95, ''Posting to GitHub''),
               (''complete'', 100, ''Review complete'')]"
  let ?R = "\<lambda>w'. (\<exists>s. get_by_repository_result env = Inr (Some s) \<and> \<not> enabled s)
        \<and> progress w' = progress w @ ?short \<or> progress w' = progress w @ ?full"
  have "case try_body env job w of (None, w') \<Rightarrow> ?R w' | (Some a, w') \<Rightarrow> True"
  proof (rule try_body_cases)
    fix s and w' :: World
    assume "get_by_repository_result env = Inr (Some s)" "\<not> enabled s"
      "progress w' = progress w @ [(''complete'', 100, ''Review complete'')]"
    then show "case (None, w') of (None, w') \<Rightarrow> ?R w' | (Some a, w') \<Rightarrow> True" by auto
  next
    fix w' :: World
    assume "progress w' = progress w @ ?full"
    then show "case (None, w') of (None, w') \<Rightarrow> ?R w' | (Some a, w') \<Rightarrow> True" by simp
  next
    fix stp e and w' :: World
    show "case (Some (stp, e), w') of (None, w') \<Rightarrow> ?R w' | (Some a, w') \<Rightarrow> True" by simp
  qed
  with t have r: "?R w'" by simp
  have good: "sorted_wrt (<) (map (\<lambda>(stage, percent, message). percent) sent)
           \<and> list_all (\<lambda>(stage, percent, message). PROGRESS_STAGES stage = Some (percent, message)) sent
           \<and> last sent = (''complete'', 100, ''Review complete'')"
    if "sent = ?short \<or> sent = ?full" for sent
    using that by (auto simp: PROGRESS_STAGES_def)
  from r have "\<exists>sent. progress w' = progress w @ sent \<and> (sent = ?short \<or> sent = ?full)"
    by blast
  then obtain sent where "progress w' = progress w @ sent" "sent = ?short \<or> sent = ?full"
    by blast
  with good[of sent] have "\<exists>sent. progress w' = progress w @ sent
           \<and> sorted_wrt (<) (map (\<lambda>(stage, percent, message). percent) sent)
           \<and> list_all (\<lambda>(stage, percent, message). PROGRESS_STAGES stage = Some (percent, message)) sent
           \<and> last sent = (''complete'', 100, ''Review complete'')"
    by blast
  with r show ?thesis by blast
qed

text \<open>The stages of the example run.\<close>

theorem progress_checkpoints_witness:
  "try_body example_env example_job new_world
     = (None, snd (try_body example_env example_job new_world))
   \<and> map fst (progress (snd (try_body example_env example_job new_world)))
       = [''fetching_diff'', ''fetching_context'', ''logic_agent'', ''critique_agent'',
          ''formatting'', ''posting'', ''complete'']
   \<and> map (\<lambda>(stage, percent, message). percent)
         (progress (snd (try_body example_env example_job new_world)))
       = [10, 15, 25, 70, 90, 95, 100]"
proof -
  have t: "fst (try_body example_env example_job new_world) = None" by code_simp
  then have t': "try_body example_env example_job new_world
       = (None, snd (try_body example_env example_job new_world))"
    by (metis prod.collapse)
  have e: "enabled (example_settings CRITICAL)" by (simp add: example_settings_def)
  have g: "get_by_repository_result example_env = Inr (Some (example_settings CRITICAL))"
    by (simp add: example_env_def)
  have n: "progress new_world = []" by (simp add: new_world_def)
  from progress_checkpoints[OF t'] e g n
  have "progress (snd (try_body example_env example_job new_world)) =
              [(''fetching_diff'', 10, ''Fetching PR diff from GitHub''),
               (''fetching_context'', 15, ''Fetching file context''),
               (''logic_agent'', 25, ''Running Logic Agent''),
               (''critique_agent'', 70, ''Running Critique Agent''),
               (''formatting'', 90, ''Formatting comment''),
               (''posting'', 95, ''Posting to GitHub''),
               (''complete'', 100, ''Review complete'')]"
    by auto
  with t' show ?thesis by simp
qed

text \<open>
  The example run completes without the stages security_agent, quality_agent and
  deduplicating.
\<close>

theorem progress_checkpoints_counterexample:
  "review_status (snd (process_review example_env example_job new_world)) = COMPLETED
   \<and> map fst (progress (snd (process_review example_env example_job new_world)))
       \<noteq> [''fetching_diff'', ''fetching_context'', ''logic_agent'', ''security_agent'',
           ''quality_agent'', ''critique_agent'', ''deduplicating'', ''formatting'', ''posting'',
           ''complete'']"
  by code_simp

subsection \<open>Report renderer\<close>

lemma get0_update: "get0 (m(k \<mapsto> v)) k' = (if k' = k then v else get0 m k')"
  by (simp add: get0_def)

lemma count_loop_get0:
  "get0 (count_loop counts fs) sev = get0 counts sev + severity_count sev fs"
proof (induction fs arbitrary: counts)
  case Nil
  show ?case by (simp add: severity_count_def)
next
  case (Cons f fs)
  show ?case
    by (simp add: Cons severity_count_def get0_update) (auto simp: get0_def)
qed

lemma count_by_severity_get0:
  "get0 (count_by_severity fs) sev = severity_count sev fs"
  by (simp add: count_by_severity_def count_loop_get0) (simp add: get0_def)

lemma summary_line_spec:
  "0 < n \<Longrightarrow> [summary_line emoji label n] = spec_summary emoji label n"
  by (simp add: summary_line_def spec_summary_def)

lemma summary_loop_order:
  "summary_loop counts lines SEVERITY_ORDER =
     Inr (lines @ spec_summary red_circle ''Critical'' (get0 counts ''critical'')
                @ spec_summary yellow_circle ''Warning'' (get0 counts ''warning'')
                @ spec_summary blue_circle ''Info'' (get0 counts ''info''))"
proof -
  have step: "summary_loop counts lines (sev # rest) =
      summary_loop counts (lines @ spec_summary emoji label (get0 counts sev)) rest"
    if "SEVERITY_EMOJI sev = Some emoji" "SEVERITY_LABEL sev = Some label" for sev rest emoji label lines
    using that summary_line_spec[of "get0 counts sev" emoji label]
    by (cases "0 < get0 counts sev") (simp_all add: Let_def spec_summary_def)
  have e: "SEVERITY_EMOJI ''critical'' = Some red_circle" "SEVERITY_EMOJI ''warning'' = Some yellow_circle"
    "SEVERITY_EMOJI ''info'' = Some blue_circle"
    by (simp_all add: SEVERITY_EMOJI_def)
  have l: "SEVERITY_LABEL ''critical'' = Some ''Critical''" "SEVERITY_LABEL ''warning'' = Some ''Warning''"
    "SEVERITY_LABEL ''info'' = Some ''Info''"
    by (simp_all add: SEVERITY_LABEL_def)
  show ?thesis
    unfolding SEVERITY_ORDER_def
    by (simp only: step[OF e(1) l(1)] step[OF e(2) l(2)] step[OF e(3) l(3)] summary_loop.simps(1)
        append_assoc)
qed

lemma group_loop_filter:
  "\<forall>(f, a) \<in> set entries. severity f \<in> dom groups \<Longrightarrow>
     group_loop groups entries =
       Inr (\<lambda>sev. map_option (\<lambda>xs. xs @ filter (\<lambda>(f, a). severity f = sev) entries) (groups sev))"
proof (induction entries arbitrary: groups)
  case Nil
  have "(\<lambda>sev. map_option (\<lambda>xs. xs) (groups sev)) = groups"
    by (rule ext) (simp add: option.map_ident)
  then show ?case by simp
next
  case (Cons x entries)
  obtain f a where x: "x = (f, a)" by force
  with Cons.prems obtain found where g: "groups (severity f) = Some found" by auto
  let ?g = "groups(severity f \<mapsto> found @ [(f, a)])"
  from Cons.prems have "\<forall>(f, a) \<in> set entries. severity f \<in> dom ?g" by auto
  from Cons.IH[OF this] have ih: "group_loop ?g entries =
       Inr (\<lambda>sev. map_option (\<lambda>xs. xs @ filter (\<lambda>(f, a). severity f = sev) entries) (?g sev))" .
  have "(\<lambda>sev. map_option (\<lambda>xs. xs @ filter (\<lambda>(f, a). severity f = sev) entries) (?g sev))
      = (\<lambda>sev. map_option (\<lambda>xs. xs @ filter (\<lambda>(f, a). severity f = sev) ((f, a) # entries)) (groups sev))"
    by (rule ext) (simp add: g)
  with ih x g show ?case by simp
qed

lemma entry_loop_concat:
  "entry_loop lines entries = lines @ concat (map (\<lambda>(f, agent). [format_finding f agent, []]) entries)"
proof (induction entries arbitrary: lines)
  case Nil
  show ?case by simp
next
  case (Cons x entries)
  obtain f a where x: "x = (f, a)" by force
  show ?case by (simp add: x Cons)
qed

lemma section_loop_order:
  assumes "groups ''critical'' = Some c" "groups ''warning'' = Some w" "groups ''info'' = Some i"
  shows "section_loop groups lines SEVERITY_ORDER =
     Inr (lines @ spec_section red_circle ''Critical'' c
                @ spec_section yellow_circle ''Warning'' w
                @ spec_section blue_circle ''Info'' i)"
proof -
  have step: "section_loop groups lines (sev # rest) =
      section_loop groups (lines @ spec_section emoji label entries) rest"
    if "groups sev = Some entries" "SEVERITY_EMOJI sev = Some emoji" "SEVERITY_LABEL sev = Some label"
    for sev rest emoji label lines entries
    using that by (cases "entries = []") (simp_all add: spec_section_def entry_loop_concat)
  have e: "SEVERITY_EMOJI ''critical'' = Some red_circle" "SEVERITY_EMOJI ''warning'' = Some yellow_circle"
    "SEVERITY_EMOJI ''info'' = Some blue_circle"
    by (simp_all add: SEVERITY_EMOJI_def)
  have l: "SEVERITY_LABEL ''critical'' = Some ''Critical''" "SEVERITY_LABEL ''warning'' = Some ''Warning''"
    "SEVERITY_LABEL ''info'' = Some ''Info''"
    by (simp_all add: SEVERITY_LABEL_def)
  show ?thesis
    unfolding SEVERITY_ORDER_def
    by (simp only: step[OF assms(1) e(1) l(1)] step[OF assms(2) e(2) l(2)]
        step[OF assms(3) e(3) l(3)] section_loop.simps(1) append_assoc)
qed

lemma filter_tagged:
  "filter (\<lambda>(f, a). severity f = sev)
     (map (\<lambda>finding. (finding, ''Logic'')) l @ map (\<lambda>finding. (finding, ''Security'')) s
      @ map (\<lambda>finding. (finding, ''Quality'')) q)
   = entries_of_severity sev l s q"
  by (simp add: entries_of_severity_def filter_map comp_def)

text \<open>
  C6. For buckets that are not all empty and hold findings of the severities critical,
  warning and info, the rendered report is the layout of the specification: after the
  heading, one summary line for each severity with a count above zero, in the order
  critical, warning, info, with \<open>issue\<close> for a count of one and \<open>issues\<close> otherwise; then one
  section for each severity that has findings, in the same order, its entries in the
  order logic, security, quality and inside a bucket in the order of the bucket; then the
  footer.
\<close>

theorem report_layout:
  "\<forall>f \<in> set (l @ s @ q). severity f \<in> set SEVERITY_ORDER \<Longrightarrow> l @ s @ q \<noteq> [] \<Longrightarrow>
     format_comment l s q = Inr (spec_report l s q)"
proof -
  assume valid: "\<forall>f \<in> set (l @ s @ q). severity f \<in> set SEVERITY_ORDER" and ne: "l @ s @ q \<noteq> []"
  let ?all = "map (\<lambda>finding. (finding, ''Logic'')) l @ map (\<lambda>finding. (finding, ''Security'')) s
              @ map (\<lambda>finding. (finding, ''Quality'')) q"
  have fsts: "map fst ?all = l @ s @ q" by (simp add: comp_def)
  have dom: "dom empty_groups = set SEVERITY_ORDER"
    by (auto simp: empty_groups_def SEVERITY_ORDER_def split: if_splits)
  from valid have "\<forall>(f, a) \<in> set ?all. severity f \<in> dom empty_groups"
    unfolding dom by auto
  from group_loop_filter[OF this] have g: "group_loop empty_groups ?all =
       Inr (\<lambda>sev. map_option (\<lambda>xs. xs @ entries_of_severity sev l s q) (empty_groups sev))"
    by (simp only: filter_tagged)
  let ?groups = "\<lambda>sev. map_option (\<lambda>xs. xs @ entries_of_severity sev l s q) (empty_groups sev)"
  have gs: "?groups ''critical'' = Some (entries_of_severity ''critical'' l s q)"
    "?groups ''warning'' = Some (entries_of_severity ''warning'' l s q)"
    "?groups ''info'' = Some (entries_of_severity ''info'' l s q)"
    by (simp_all add: empty_groups_def SEVERITY_ORDER_def)
  note sec = section_loop_order[of ?groups, OF gs]
  from ne have ne': "?all \<noteq> []" by simp
  have "format_comment l s q =
      (case summary_loop (count_by_severity (map fst ?all))
              [''## CodeGuard AI Review'', [], ''### Summary''] SEVERITY_ORDER of
         Inl e \<Rightarrow> Inl e
       | Inr lines \<Rightarrow>
           (case group_loop empty_groups ?all of
              Inl e \<Rightarrow> Inl e
            | Inr findings_by_severity \<Rightarrow>
                (case section_loop findings_by_severity lines SEVERITY_ORDER of
                   Inl e \<Rightarrow> Inl e
                 | Inr lines \<Rightarrow>
                     Inr (join [newline] (lines @ [''---'', ''*Automated review by CodeGuard AI*''])))))"
    using ne' unfolding format_comment_def Let_def by (simp only: if_False)
  also have "\<dots> = Inr (spec_report l s q)"
    by (simp only: summary_loop_order g fsts sum.case sec spec_report_def Let_def
        count_by_severity_get0 append_assoc)
  finally show ?thesis .
qed

text \<open>
  Six findings of the severities critical, critical, warning, warning, warning, info over
  the three buckets: the summary reads 2 Critical, 3 Warning, 1 Info.
\<close>

theorem report_layout_witness:
  "list_all (\<lambda>f. severity f \<in> set SEVERITY_ORDER)
     ([example_finding ''critical'' ''A'', example_finding ''warning'' ''B'']
      @ [example_finding ''critical'' ''C'', example_finding ''warning'' ''D'',
         example_finding ''info'' ''E'']
      @ [example_finding ''warning'' ''F''])
   \<and> format_comment
        [example_finding ''critical'' ''A'', example_finding ''warning'' ''B'']
        [example_finding ''critical'' ''C'', example_finding ''warning'' ''D'',
         example_finding ''info'' ''E'']
        [example_finding ''warning'' ''F'']
      = Inr (join [newline]
          [''## CodeGuard AI Review'', [], ''### Summary'',
           ''- '' @ red_circle @ '' **2 Critical** issues'',
           ''- '' @ yellow_circle @ '' **3 Warning** issues'',
           ''- '' @ blue_circle @ '' **1 Info** issue'',
           [], ''### '' @ red_circle @ '' Critical Issues'', [],
           format_finding (example_finding ''critical'' ''A'') ''Logic'', [],
           format_finding (example_finding ''critical'' ''C'') ''Security'', [],
           [], ''### '' @ yellow_circle @ '' Warning Issues'', [],
           format_finding (example_finding ''warning'' ''B'') ''Logic'', [],
           format_finding (example_finding ''warning'' ''D'') ''Security'', [],
           format_finding (example_finding ''warning'' ''F'') ''Quality'', [],
           [], ''### '' @ blue_circle @ '' Info Issues'', [],
           format_finding (example_finding ''info'' ''E'') ''Security'', [],
           ''---'', ''*Automated review by CodeGuard AI*''])"
proof -
  let ?l = "[example_finding ''critical'' ''A'', example_finding ''warning'' ''B'']"
  let ?s = "[example_finding ''critical'' ''C'', example_finding ''warning'' ''D'',
         example_finding ''info'' ''E'']"
  let ?q = "[example_finding ''warning'' ''F'']"
  have v: "\<forall>f \<in> set (?l @ ?s @ ?q). severity f \<in> set SEVERITY_ORDER"
    by (simp add: example_finding_def SEVERITY_ORDER_def)
  have n: "?l @ ?s @ ?q \<noteq> []" by simp
  have r: "spec_report ?l ?s ?q = join [newline]
          [''## CodeGuard AI Review'', [], ''### Summary'',
           ''- '' @ red_circle @ '' **2 Critical** issues'',
           ''- '' @ yellow_circle @ '' **3 Warning** issues'',
           ''- '' @ blue_circle @ '' **1 Info** issue'',
           [], ''### '' @ red_circle @ '' Critical Issues'', [],
           format_finding (example_finding ''critical'' ''A'') ''Logic'', [],
           format_finding (example_finding ''critical'' ''C'') ''Security'', [],
           [], ''### '' @ yellow_circle @ '' Warning Issues'', [],
           format_finding (example_finding ''warning'' ''B'') ''Logic'', [],
           format_finding (example_finding ''warning'' ''D'') ''Security'', [],
           format_finding (example_finding ''warning'' ''F'') ''Quality'', [],
           [], ''### '' @ blue_circle @ '' Info Issues'', [],
           format_finding (example_finding ''info'' ''E'') ''Security'', [],
           ''---'', ''*Automated review by CodeGuard AI*'']"
    by code_simp
  from v have "list_all (\<lambda>f. severity f \<in> set SEVERITY_ORDER) (?l @ ?s @ ?q)"
    by (simp only: list_all_iff)
  with report_layout[OF v n] r show ?thesis by simp
qed

subsection \<open>Structured output: retries\<close>





subsection \<open>Structured output: escape repair\<close>



















subsection \<open>Validation\<close>

text \<open>
  C9. Validation of an agent finding accepts exactly the severities critical, warning,
  info and the confidences high, medium, low (medium when absent); validation of a stored
  finding accepts exactly the agent types logic, security, quality and the severities
  critical, high, medium, low, info, with any text as confidence. Both take the line
  number as it is given, absent or any integer.
\<close>

theorem finding_validation:
  "((\<exists>f. validate_AgentFinding raw = Inr f) \<longleftrightarrow>
      raw_severity raw \<in> {''critical'', ''warning'', ''info''}
      \<and> (case raw_confidence raw of None \<Rightarrow> True | Some c \<Rightarrow> c \<in> {''high'', ''medium'', ''low''}))
   \<and> (validate_AgentFinding raw = Inr f \<longrightarrow>
        severity f = raw_severity raw
        \<and> confidence f = (case raw_confidence raw of None \<Rightarrow> ''medium'' | Some c \<Rightarrow> c)
        \<and> line_number f = raw_line_number raw)
   \<and> ((\<exists>b. validate_FindingBase stored = Inr b) \<longleftrightarrow>
        raw_f_agent_type stored \<in> {''logic'', ''security'', ''quality''}
        \<and> raw_f_severity stored \<in> {''critical'', ''high'', ''medium'', ''low'', ''info''})
   \<and> (validate_FindingBase stored = Inr b \<longrightarrow>
        f_confidence b = (case raw_f_confidence stored of None \<Rightarrow> ''medium'' | Some c \<Rightarrow> c)
        \<and> f_line_number b = raw_f_line_number stored)"
proof (intro conjI)
  show "(\<exists>f. validate_AgentFinding raw = Inr f) \<longleftrightarrow>
      raw_severity raw \<in> {''critical'', ''warning'', ''info''}
      \<and> (case raw_confidence raw of None \<Rightarrow> True | Some c \<Rightarrow> c \<in> {''high'', ''medium'', ''low''})"
    by (cases "raw_confidence raw") (auto simp: validate_AgentFinding_def)
  show "validate_AgentFinding raw = Inr f \<longrightarrow>
        severity f = raw_severity raw
        \<and> confidence f = (case raw_confidence raw of None \<Rightarrow> ''medium'' | Some c \<Rightarrow> c)
        \<and> line_number f = raw_line_number raw"
    by (cases "raw_confidence raw") (auto simp: validate_AgentFinding_def split: if_splits)
  show "(\<exists>b. validate_FindingBase stored = Inr b) \<longleftrightarrow>
        raw_f_agent_type stored \<in> {''logic'', ''security'', ''quality''}
        \<and> raw_f_severity stored \<in> {''critical'', ''high'', ''medium'', ''low'', ''info''}"
    by (auto simp: validate_FindingBase_def AgentType_of_def Severity_of_def
        split: option.splits if_splits)
  show "validate_FindingBase stored = Inr b \<longrightarrow>
        f_confidence b = (case raw_f_confidence stored of None \<Rightarrow> ''medium'' | Some c \<Rightarrow> c)
        \<and> f_line_number b = raw_f_line_number stored"
    by (auto simp: validate_FindingBase_def split: option.splits)
qed

text \<open>Accepted and rejected inputs.\<close>

theorem finding_validation_witness:
  "validate_AgentFinding negative_line_raw
     = Inr \<lparr>severity = ''warning'', confidence = ''medium'', file_path = ''app.py'',
            line_number = Some (- 1), title = ''Title'', description = ''Description'',
            suggestion = None\<rparr>
   \<and> confidence \<lparr>severity = ''warning'', confidence = ''medium'', file_path = ''app.py'',
            line_number = Some (- 1), title = ''Title'', description = ''Description'',
            suggestion = None\<rparr> = ''medium''
   \<and> raw_severity negative_line_raw \<in> {''critical'', ''warning'', ''info''}
   \<and> (\<exists>f. validate_AgentFinding (negative_line_raw\<lparr>raw_confidence := Some ''high''\<rparr>) = Inr f)
   \<and> \<not> (\<exists>f. validate_AgentFinding (negative_line_raw\<lparr>raw_severity := ''high''\<rparr>) = Inr f)
   \<and> \<not> (\<exists>f. validate_AgentFinding (negative_line_raw\<lparr>raw_confidence := Some ''certain''\<rparr>) = Inr f)"
proof -
  have v: "validate_AgentFinding negative_line_raw
     = Inr \<lparr>severity = ''warning'', confidence = ''medium'', file_path = ''app.py'',
            line_number = Some (- 1), title = ''Title'', description = ''Description'',
            suggestion = None\<rparr>"
    by (simp add: validate_AgentFinding_def negative_line_raw_def)
  note T = finding_validation[where stored=odd_confidence_raw]
  from T[where raw=negative_line_raw, of "\<lparr>severity = ''warning'', confidence = ''medium'', file_path = ''app.py'',
            line_number = Some (- 1), title = ''Title'', description = ''Description'',
            suggestion = None\<rparr>"] v
  have a: "confidence \<lparr>severity = ''warning'', confidence = ''medium'', file_path = ''app.py'',
            line_number = Some (- 1), title = ''Title'', description = ''Description'',
            suggestion = None\<rparr> = ''medium''
      \<and> raw_severity negative_line_raw \<in> {''critical'', ''warning'', ''info''}"
    by (simp add: negative_line_raw_def)
  from T[where raw="negative_line_raw\<lparr>raw_confidence := Some ''high''\<rparr>"]
  have b: "\<exists>f. validate_AgentFinding (negative_line_raw\<lparr>raw_confidence := Some ''high''\<rparr>) = Inr f"
    by (simp add: negative_line_raw_def)
  from T[where raw="negative_line_raw\<lparr>raw_severity := ''high''\<rparr>"]
  have c: "\<not> (\<exists>f. validate_AgentFinding (negative_line_raw\<lparr>raw_severity := ''high''\<rparr>) = Inr f)"
    by (simp add: negative_line_raw_def)
  from T[where raw="negative_line_raw\<lparr>raw_confidence := Some ''certain''\<rparr>"]
  have d: "\<not> (\<exists>f. validate_AgentFinding (negative_line_raw\<lparr>raw_confidence := Some ''certain''\<rparr>) = Inr f)"
    by (simp add: negative_line_raw_def)
  from v a b c d show ?thesis by blast
qed

text \<open>
  A line number below zero is accepted by both validations, and the stored finding is
  accepted with a confidence outside high, medium, low.
\<close>

theorem finding_validation_counterexample:
  "raw_line_number negative_line_raw = Some (- 1)
   \<and> validate_AgentFinding negative_line_raw
     = Inr \<lparr>severity = ''warning'', confidence = ''medium'', file_path = ''app.py'',
            line_number = Some (- 1), title = ''Title'', description = ''Description'',
            suggestion = None\<rparr>
   \<and> validate_FindingBase odd_confidence_raw
     = Inr \<lparr>f_agent_type = LOGIC, f_severity = HIGH, f_file_path = ''app.py'',
            f_line_number = Some (- 1), f_title = ''Title'', f_description = ''Description'',
            f_suggestion = None, f_confidence = ''certain'', f_is_false_positive = False,
            f_false_positive_reason = None\<rparr>"
  by (simp add: validate_AgentFinding_def negative_line_raw_def validate_FindingBase_def
      odd_confidence_raw_def AgentType_of_def Severity_of_def)

end
